(* ===== verification/Prelude.thy ===== *)
theory Prelude
  imports Main "HOL-Library.Multiset" "HOL-Library.Word"
begin

text \<open>
  Shared vocabulary of the dashboard model (\<open>src/dashboard.py\<close>): the type of the
  \<open>dteday\<close> column after \<open>pd.to_datetime\<close>, the error values of the script, the
  pandas reductions \<open>Series.min\<close> / \<open>Series.max\<close> (which give \<open>NaT\<close>, here
  \<open>None\<close>, on an empty column), and the one-pass keyed accumulation that pandas
  performs for \<open>groupby(...).sum()\<close> and \<open>resample(...).agg({"cnt": "sum"})\<close>.
  The generic lemmas on sums over lists and on the accumulation carry the component
  proofs; reading decimal digits (\<open>digits_value\<close>) and the exactness of int64
  (\<open>64 word\<close>) on values in range are shared by the date and metric theories.
\<close>

named_theorems frame_simps "equations of the dataframe operations, for unfolding"

text \<open>
  A \<open>dteday\<close> value after \<open>pd.to_datetime\<close> is a midnight timestamp; it is modelled
  by its day number (days since an epoch), so that the next calendar day is \<open>d + 1\<close>,
  which is what \<open>resample(rule='D')\<close> steps by.
\<close>

type_synonym day = int

text \<open>
  The failures of one run of the script: \<open>pd.to_datetime\<close> rejecting a \<open>dteday\<close>
  string (\<open>ParseError\<close>), an empty dataset whose \<open>min()\<close>/\<open>max()\<close> are
  \<open>NaT\<close> (\<open>EmptyDataset\<close>), and the tuple unpacking of \<open>st.date_input\<close>'s result
  failing (\<open>ValueError\<close>).
\<close>

datatype error = ParseError | EmptyDataset | ValueError

subsection \<open>pandas reductions on a column\<close>

definition series_min :: "'a::linorder list \<Rightarrow> 'a option" where
  "series_min xs = (case xs of [] \<Rightarrow> None | x # ys \<Rightarrow> Some (fold min ys x))"

definition series_max :: "'a::linorder list \<Rightarrow> 'a option" where
  "series_max xs = (case xs of [] \<Rightarrow> None | x # ys \<Rightarrow> Some (fold max ys x))"

subsection \<open>Keyed accumulation (the engine of groupby-sum and resample-sum)\<close>

text \<open>
  One pass over the (key, value) pairs, adding each value into the running sum of its
  key; a key seen for the first time starts at its value.
\<close>

definition acc_add :: "('k \<rightharpoonup> int) \<Rightarrow> 'k \<Rightarrow> int \<Rightarrow> ('k \<rightharpoonup> int)" where
  "acc_add m k v = m(k \<mapsto> (case m k of None \<Rightarrow> v | Some s \<Rightarrow> s + v))"

fun group_acc :: "('k \<rightharpoonup> int) \<Rightarrow> ('k \<times> int) list \<Rightarrow> ('k \<rightharpoonup> int)" where
  "group_acc m [] = m"
| "group_acc m ((k, v) # kvs) = group_acc (acc_add m k v) kvs"

text \<open>The reference meaning of a group's sum: the sum of the values under that key.\<close>

definition key_sum :: "('k \<times> int) list \<Rightarrow> 'k \<Rightarrow> int" where
  "key_sum kvs k = sum_list (map snd (filter (\<lambda>kv. fst kv = k) kvs))"

subsection \<open>Decimal digits\<close>

text \<open>Reading a string of decimal digits as a number, most significant digit first.\<close>

definition digits_value :: "string \<Rightarrow> nat" where
  "digits_value cs = foldl (\<lambda>acc c. 10 * acc + (of_char c - 48)) 0 cs"

subsection \<open>Lemmas on the reductions\<close>

lemma fold_min_Min: "fold min ys x = Min (insert x (set ys))"
  using Min.set_eq_fold [of x ys] by simp

lemma fold_max_Max: "fold max ys x = Max (insert x (set ys))"
  using Max.set_eq_fold [of x ys] by simp

lemma series_min_None [simp]: "series_min xs = None \<longleftrightarrow> xs = []"
  by (simp add: series_min_def split: list.splits)

lemma series_max_None [simp]: "series_max xs = None \<longleftrightarrow> xs = []"
  by (simp add: series_max_def split: list.splits)

lemma series_min_Some:
  "series_min xs = Some m \<longleftrightarrow> m \<in> set xs \<and> (\<forall>y\<in>set xs. m \<le> y)"
proof (cases xs)
  case Nil
  then show ?thesis by (simp add: series_min_def)
next
  case (Cons x ys)
  then have "fold min ys x = Min (set xs)"
    by (simp add: fold_min_Min)
  then have "fold min ys x \<in> set xs" and "\<forall>y\<in>set xs. fold min ys x \<le> y"
    using Cons Min_in [of "set xs"] by (simp_all del: Min_insert Max_insert)
  then show ?thesis
    using Cons by (auto simp: series_min_def intro: order.antisym)
qed

lemma series_max_Some:
  "series_max xs = Some m \<longleftrightarrow> m \<in> set xs \<and> (\<forall>y\<in>set xs. y \<le> m)"
proof (cases xs)
  case Nil
  then show ?thesis by (simp add: series_max_def)
next
  case (Cons x ys)
  then have "fold max ys x = Max (set xs)"
    by (simp add: fold_max_Max)
  then have "fold max ys x \<in> set xs" and "\<forall>y\<in>set xs. y \<le> fold max ys x"
    using Cons Max_in [of "set xs"] by (simp_all del: Min_insert Max_insert)
  then show ?thesis
    using Cons by (auto simp: series_max_def intro: order.antisym)
qed

lemma series_min_sorted: "sorted xs \<Longrightarrow> xs \<noteq> [] \<Longrightarrow> series_min xs = Some (hd xs)"
  by (cases xs) (auto simp: series_min_Some)

lemma sorted_le_last: "sorted xs \<Longrightarrow> y \<in> set xs \<Longrightarrow> y \<le> last xs"
  by (induction xs) auto

lemma series_max_sorted: "sorted xs \<Longrightarrow> xs \<noteq> [] \<Longrightarrow> series_max xs = Some (last xs)"
  by (auto simp: series_max_Some sorted_le_last)

lemma series_min_le_max:
  "series_min xs = Some lo \<Longrightarrow> series_max xs = Some hi \<Longrightarrow> lo \<le> hi"
  by (auto simp: series_min_Some series_max_Some)

lemma series_min_set: "set xs = set ys \<Longrightarrow> series_min xs = series_min ys"
  by (cases xs; cases ys) (simp_all add: series_min_def fold_min_Min)

lemma series_max_set: "set xs = set ys \<Longrightarrow> series_max xs = series_max ys"
  by (cases xs; cases ys) (simp_all add: series_max_def fold_max_Max)

subsection \<open>Sums over lists\<close>

lemma sum_list_map_mset:
  "mset xs = mset ys \<Longrightarrow> sum_list (map f xs) = sum_list (map (f :: 'a \<Rightarrow> 'b::comm_monoid_add) ys)"
proof -
  assume "mset xs = mset ys"
  then have "mset (map f xs) = mset (map f ys)" by simp
  then show ?thesis by (simp only: sum_mset_sum_list [symmetric])
qed

lemma sum_list_filter_partition:
  "sum_list (map f (filter P xs)) + sum_list (map f (filter (\<lambda>x. \<not> P x) xs))
     = sum_list (map (f :: 'a \<Rightarrow> 'b::comm_monoid_add) xs)"
  by (induction xs) (simp_all add: algebra_simps)

lemma sum_list_le_length_mult:
  "(\<And>x. x \<in> set xs \<Longrightarrow> f x \<le> b) \<Longrightarrow> sum_list (map f xs) \<le> int (length xs) * (b :: int)"
  by (induction xs) (auto simp: algebra_simps intro: add_mono)

subsection \<open>The keyed accumulation computes the group sums\<close>

lemma key_sum_Nil [simp]: "key_sum [] k = 0"
  by (simp add: key_sum_def)

lemma key_sum_Cons [simp]:
  "key_sum ((k', v) # kvs) k = (if k' = k then v else 0) + key_sum kvs k"
  by (simp add: key_sum_def)

lemma key_sum_absent: "k \<notin> fst ` set kvs \<Longrightarrow> key_sum kvs k = 0"
  by (induction kvs) auto

lemma key_sum_mset:
  assumes "mset kvs = mset kvs'"
  shows "key_sum kvs k = key_sum kvs' k"
proof -
  have "mset (filter (\<lambda>kv. fst kv = k) kvs) = mset (filter (\<lambda>kv. fst kv = k) kvs')"
    using assms by simp
  then show ?thesis
    unfolding key_sum_def by (rule sum_list_map_mset)
qed

lemma group_acc_lookup:
  "group_acc m kvs k =
     (if k \<in> fst ` set kvs
      then Some ((case m k of None \<Rightarrow> 0 | Some s \<Rightarrow> s) + key_sum kvs k)
      else m k)"
proof (induction m kvs rule: group_acc.induct)
  case (1 m)
  then show ?case by simp
next
  case (2 m k' v kvs)
  have get: "(case acc_add m k' v k of None \<Rightarrow> 0 | Some s \<Rightarrow> s)
      = (case m k of None \<Rightarrow> 0 | Some s \<Rightarrow> s) + (if k' = k then v else 0)"
    by (simp add: acc_add_def split: option.split)
  show ?case
  proof (cases "k \<in> fst ` set kvs")
    case True
    with "2.IH" get show ?thesis by (simp add: algebra_simps)
  next
    case False
    with "2.IH" have "group_acc (acc_add m k' v) kvs k = acc_add m k' v k" by simp
    moreover have "key_sum kvs k = 0" using False by (rule key_sum_absent)
    ultimately show ?thesis
      using False by (cases "k' = k") (simp_all add: acc_add_def split: option.split)
  qed
qed

corollary group_acc_empty:
  "group_acc Map.empty kvs k = (if k \<in> fst ` set kvs then Some (key_sum kvs k) else None)"
  by (simp add: group_acc_lookup)

lemma key_sum_total_set:
  "finite K \<Longrightarrow> fst ` set kvs \<subseteq> K \<Longrightarrow> (\<Sum>k\<in>K. key_sum kvs k) = sum_list (map snd kvs)"
proof (induction kvs)
  case Nil
  then show ?case by simp
next
  case (Cons kv kvs)
  obtain k' v where kv: "kv = (k', v)" by fastforce
  with Cons.prems have k': "k' \<in> K" and sub: "fst ` set kvs \<subseteq> K" by auto
  have "(\<Sum>k\<in>K. key_sum (kv # kvs) k)
      = (\<Sum>k\<in>K. if k' = k then v else 0) + (\<Sum>k\<in>K. key_sum kvs k)"
    by (simp add: kv sum.distrib)
  also have "(\<Sum>k\<in>K. if k' = k then v else 0) = v"
    using Cons.prems(1) k' by (simp add: sum.delta)
  also have "(\<Sum>k\<in>K. key_sum kvs k) = sum_list (map snd kvs)"
    using Cons.prems(1) sub by (rule Cons.IH)
  finally show ?case by (simp add: kv)
qed

lemma key_sum_total:
  "distinct ks \<Longrightarrow> fst ` set kvs \<subseteq> set ks \<Longrightarrow>
   sum_list (map (key_sum kvs) ks) = sum_list (map snd kvs)"
  by (simp add: sum_list_distinct_conv_sum_set key_sum_total_set)

subsection \<open>Collecting the results of a fallible map\<close>

lemma those_map_None: "those (map f xs) = None \<longleftrightarrow> (\<exists>x\<in>set xs. f x = None)"
  by (induction xs) (auto split: option.splits)

lemma those_map_Some:
  "those (map f xs) = Some ys \<longleftrightarrow> (\<forall>x\<in>set xs. f x \<noteq> None) \<and> ys = map (\<lambda>x. the (f x)) xs"
  by (induction xs arbitrary: ys) (auto split: option.splits)

subsection \<open>Sorted distinct keys\<close>

lemma sorted_wrt_sort_remdups: "sorted_wrt (<) (sort (remdups xs))"
  by (simp add: strict_sorted_iff)

lemma sort_remdups_singleton: "set xs = {c} \<Longrightarrow> sort (remdups xs) = [c]"
proof -
  assume "set xs = {c}"
  then have "sort (remdups xs) = sorted_list_of_set {c}"
    by (simp flip: sorted_list_of_set_sort_remdups)
  then show ?thesis by simp
qed

lemma image_set_const: "xs \<noteq> [] \<Longrightarrow> (\<forall>x\<in>set xs. f x = c) \<Longrightarrow> f ` set xs = {c}"
  by (cases xs) auto

subsection \<open>Digits and int64\<close>

lemma digits_value_snoc:
  "digits_value (cs @ [c]) = 10 * digits_value cs + (of_char c - 48)"
  by (simp add: digits_value_def)

lemma of_char_digit: "k < 10 \<Longrightarrow> of_char (char_of (48 + k) :: char) - 48 = (k :: nat)"
  by (simp add: of_char_of)

lemma sint_int64_exact:
  assumes "- (2 ^ 63) \<le> k" and "k < 2 ^ 63"
  shows "sint (word_of_int k :: 64 word) = k"
proof -
  from assms have "(k + 2 ^ 63) mod 2 ^ 64 = k + 2 ^ 63"
    by simp
  then show ?thesis by (simp add: int_word_sint)
qed

end
