(* ===== verification/Calendar.thy ===== *)
theory Calendar
  imports Prelude
begin

text \<open>
  The date conversion that \<open>pd.to_datetime\<close> applies to the \<open>dteday\<close> column
  (line 47 of \<open>src/dashboard.py\<close>, again on line 16). pandas is a library the
  script calls, so this theory models its behaviour on the dataset's date format
  (\<open>YYYY-MM-DD\<close>), not its code: a string is read as a proleptic Gregorian
  civil date and becomes a \<open>datetime64[ns]\<close> value, an int64 count of
  nanoseconds since 1970-01-01, here its day number. A string that is not a date, or
  a date whose nanosecond count does not fit in int64 (pandas' \<open>OutOfBoundsDatetime\<close>,
  before 1677-09-22 or after 2262-04-11), is rejected (\<open>None\<close>).

  The calendar: \<open>days_before_year\<close> counts the days from 1970-01-01 to the first day
  of a year in closed form, \<open>days_of_civil\<close> turns a civil date into its day number,
  and \<open>civil_of_days\<close> inverts it with two searches: \<open>find_year\<close>, a loop upward from
  a start year that is never too late (a \<open>partial_function\<close> in the option monad,
  proved to return from every start), and \<open>find_month\<close>, a bounded search over the
  months (a \<open>function\<close> with a measure). \<open>format_iso\<close> prints a date in the
  format the parser reads; \<open>iso_weekday\<close> is Python's \<open>date.weekday()\<close>
  (Monday = 0), the convention the spec gives for the \<open>weekday\<close> column.
\<close>

subsection \<open>Gregorian calendar\<close>

definition is_leap :: "int \<Rightarrow> bool" where
  "is_leap y \<longleftrightarrow> 4 dvd y \<and> (\<not> 100 dvd y \<or> 400 dvd y)"

definition year_length :: "int \<Rightarrow> int" where
  "year_length y = (if is_leap y then 366 else 365)"

definition leaps_before :: "int \<Rightarrow> int" where
  "leaps_before y = (y - 1) div 4 - (y - 1) div 100 + (y - 1) div 400"

definition days_before_year :: "int \<Rightarrow> int" where
  "days_before_year y = 365 * (y - 1970) + leaps_before y - leaps_before 1970"

partial_function (option) find_year :: "int \<Rightarrow> int \<Rightarrow> int option" where
  "find_year n y = (if days_before_year (y + 1) \<le> n then find_year n (y + 1) else Some y)"

definition start_year :: "int \<Rightarrow> int" where
  "start_year n = 1970 + (if 0 \<le> n then n div 366 else n div 365)"

definition month_length :: "int \<Rightarrow> int \<Rightarrow> int" where
  "month_length y m =
     (if m = 2 then (if is_leap y then 29 else 28)
      else if m \<in> {4, 6, 9, 11} then 30 else 31)"

definition days_before_month :: "int \<Rightarrow> int \<Rightarrow> int" where
  "days_before_month y m = sum_list (map (month_length y) [1..m - 1])"

type_synonym civil = "int \<times> int \<times> int"

definition valid_date :: "civil \<Rightarrow> bool" where
  "valid_date c = (case c of (y, m, d) \<Rightarrow> 1 \<le> m \<and> m \<le> 12 \<and> 1 \<le> d \<and> d \<le> month_length y m)"

definition days_of_civil :: "civil \<Rightarrow> int" where
  "days_of_civil c = (case c of (y, m, d) \<Rightarrow> days_before_year y + days_before_month y m + (d - 1))"

function find_month :: "int \<Rightarrow> int \<Rightarrow> int \<Rightarrow> int" where
  "find_month y r m = (if m < 12 \<and> days_before_month y (m + 1) \<le> r then find_month y r (m + 1) else m)"
  by pat_completeness auto
termination by (relation "measure (\<lambda>(y, r, m). nat (12 - m))") auto

declare find_month.simps [simp del]

definition civil_of_days :: "int \<Rightarrow> civil option" where
  "civil_of_days n =
     (case find_year n (start_year n) of
        None \<Rightarrow> None
      | Some y \<Rightarrow>
          (let r = n - days_before_year y;
               m = find_month y r 1
           in Some (y, m, r - days_before_month y m + 1)))"

subsection \<open>ISO 8601 dates, as \<open>pd.to_datetime\<close> reads them\<close>

definition is_digit :: "char \<Rightarrow> bool" where
  "is_digit c = (48 \<le> (of_char c :: nat) \<and> (of_char c :: nat) \<le> 57)"

fun pad_digits :: "nat \<Rightarrow> nat \<Rightarrow> string" where
  "pad_digits 0 k = []"
| "pad_digits (Suc w) k = pad_digits w (k div 10) @ [char_of (48 + k mod 10)]"

definition ns_per_day :: int where
  "ns_per_day = 86400 * 10 ^ 9"

definition in_timestamp_range :: "day \<Rightarrow> bool" where
  "in_timestamp_range n = (- (2 ^ 63) \<le> n * ns_per_day \<and> n * ns_per_day < 2 ^ 63)"

definition parse_iso :: "string \<Rightarrow> day option" where
  "parse_iso s =
     (let ys = take 4 s; ms = take 2 (drop 5 s); ds = drop 8 s
      in if length s = 10 \<and> s ! 4 = CHR ''-'' \<and> s ! 7 = CHR ''-'' \<and> list_all is_digit (ys @ ms @ ds)
         then (let c = (int (digits_value ys), int (digits_value ms), int (digits_value ds))
               in if valid_date c \<and> in_timestamp_range (days_of_civil c) then Some (days_of_civil c) else None)
         else None)"

definition format_iso :: "civil \<Rightarrow> string" where
  "format_iso c = (case c of (y, m, d) \<Rightarrow>
     pad_digits 4 (nat y) @ ''-'' @ pad_digits 2 (nat m) @ ''-'' @ pad_digits 2 (nat d))"

definition format_day :: "day \<Rightarrow> string option" where
  "format_day n = map_option format_iso (civil_of_days n)"

text \<open>Python's \<open>date.weekday()\<close>: 1970-01-01 was a Thursday (3), Monday is 0.\<close>

definition iso_weekday :: "day \<Rightarrow> int" where
  "iso_weekday n = (n + 3) mod 7"

subsection \<open>Calendar arithmetic\<close>

lemma div_pred_step:
  assumes k: "0 < (k::int)"
  shows "y div k - (y - 1) div k = (if k dvd y then 1 else 0)"
proof (cases "k dvd y")
  case True
  then have "y mod k = 0" by simp
  then have "y = y div k * k"
    using div_mult_mod_eq [of y k] by simp
  then have eq: "y - 1 = (k - 1) + (y div k - 1) * k"
    by (simp add: algebra_simps)
  have "(y - 1) div k = (y div k - 1) + (k - 1) div k"
    unfolding eq by (rule div_mult_self1) (use k in simp)
  moreover have "(k - 1) div k = 0" using k by simp
  ultimately have d: "(y - 1) div k = y div k - 1" by simp
  from True show ?thesis by (simp only: d if_True)
next
  case False
  then have r: "0 < y mod k" "y mod k < k" using k
    by (simp_all add: dvd_eq_mod_eq_0 order_le_neq_trans)
  have eq: "y - 1 = (y mod k - 1) + (y div k) * k"
    using div_mult_mod_eq [of y k] by (simp add: algebra_simps)
  have "(y - 1) div k = y div k + (y mod k - 1) div k"
    unfolding eq by (rule div_mult_self1) (use k in simp)
  moreover have "(y mod k - 1) div k = 0" using r by simp
  ultimately have d: "(y - 1) div k = y div k" by simp
  from False show ?thesis by (simp only: d if_False diff_self)
qed

lemma leaps_step: "leaps_before (y + 1) - leaps_before y = (if is_leap y then 1 else 0)"
proof -
  have "leaps_before (y + 1) - leaps_before y
      = (y div 4 - (y - 1) div 4) - (y div 100 - (y - 1) div 100) + (y div 400 - (y - 1) div 400)"
    by (simp add: leaps_before_def)
  also have "\<dots> = (if 4 dvd y then 1 else 0) - (if 100 dvd y then 1 else 0) + (if 400 dvd y then 1 else 0)"
    by (simp only: div_pred_step zero_less_numeral)
  finally have eq: "leaps_before (y + 1) - leaps_before y
      = (if 4 dvd y then 1 else 0) - (if 100 dvd y then 1 else 0) + (if 400 dvd y then 1 else 0)" .
  have h1: "400 dvd y \<Longrightarrow> 100 dvd y" and h2: "100 dvd y \<Longrightarrow> 4 dvd y"
    by presburger+
  show ?thesis
    unfolding eq is_leap_def
    by (cases "4 dvd y"; cases "100 dvd y"; cases "400 dvd y") (simp_all add: h1 h2)
qed

lemma days_before_year_succ: "days_before_year (y + 1) = days_before_year y + year_length y"
  using leaps_step [of y] by (simp add: days_before_year_def year_length_def algebra_simps)

lemma year_length_bounds: "365 \<le> year_length y" "year_length y \<le> 366"
  by (simp_all add: year_length_def)

lemma days_before_year_1970 [simp]: "days_before_year 1970 = 0"
  by (simp add: days_before_year_def)

lemma days_before_year_mono_step: "days_before_year y < days_before_year (y + 1)"
  using year_length_bounds(1) [of y] by (simp add: days_before_year_succ)

lemma days_before_year_strict_mono:
  assumes "y < y'" shows "days_before_year y < days_before_year y'"
proof -
  have "days_before_year y < days_before_year (y + 1 + int k)" for k
  proof (induction k)
    case 0 then show ?case by (simp add: days_before_year_mono_step)
  next
    case (Suc k)
    then show ?case
      using days_before_year_mono_step [of "y + 1 + int k"] by (simp add: add.assoc)
  qed
  from this [of "nat (y' - y - 1)"] assms show ?thesis by simp
qed

lemma days_before_year_mono: "y \<le> y' \<Longrightarrow> days_before_year y \<le> days_before_year y'"
  using days_before_year_strict_mono [of y y'] by (cases "y = y'") simp_all

lemma days_before_year_upper: "0 \<le> k \<Longrightarrow> days_before_year (1970 + k) \<le> 366 * k"
proof (induction k rule: int_ge_induct)
  case base then show ?case by simp
next
  case (step k)
  then show ?case
    using days_before_year_succ [of "1970 + k"] year_length_bounds(2) [of "1970 + k"]
    by (simp add: add.assoc)
qed

lemma days_before_year_lower: "k \<le> 0 \<Longrightarrow> days_before_year (1970 + k) \<le> 365 * k"
proof (induction k rule: int_le_induct)
  case base then show ?case by simp
next
  case (step k)
  then show ?case
    using days_before_year_succ [of "1970 + (k - 1)"] year_length_bounds(1) [of "1970 + (k - 1)"]
    by simp
qed

subsection \<open>The year and month searches\<close>

lemma find_year_correct:
  assumes "days_before_year y \<le> n"
  shows "\<exists>Y. find_year n y = Some Y \<and> y \<le> Y \<and> days_before_year Y \<le> n \<and> n < days_before_year (Y + 1)"
  using assms
proof (induction "nat (n - days_before_year y)" arbitrary: y rule: less_induct)
  case less
  show ?case
  proof (cases "days_before_year (y + 1) \<le> n")
    case True
    have "nat (n - days_before_year (y + 1)) < nat (n - days_before_year y)"
      using True days_before_year_mono_step [of y] by simp
    from less.hyps [OF this True] obtain Y where
      "find_year n (y + 1) = Some Y" "y + 1 \<le> Y" "days_before_year Y \<le> n" "n < days_before_year (Y + 1)"
      by blast
    with True show ?thesis by (subst find_year.simps) auto
  next
    case False
    with less.prems show ?thesis by (subst find_year.simps) auto
  qed
qed

lemma find_year_stops: "n < days_before_year (y + 1) \<Longrightarrow> find_year n y = Some y"
  by (subst find_year.simps) simp

lemma start_year_le: "days_before_year (start_year n) \<le> n"
proof (cases "0 \<le> n")
  case True
  then have "days_before_year (start_year n) \<le> 366 * (n div 366)"
    using days_before_year_upper [of "n div 366"] by (simp add: start_year_def)
  also have "\<dots> \<le> n" by simp
  finally show ?thesis .
next
  case False
  then have "days_before_year (start_year n) \<le> 365 * (n div 365)"
    using days_before_year_lower [of "n div 365"] by (simp add: start_year_def)
  also have "\<dots> \<le> n" by simp
  finally show ?thesis .
qed

lemma year_unique:
  assumes "days_before_year Y \<le> n" "n < days_before_year (Y + 1)"
    and "days_before_year Y' \<le> n" "n < days_before_year (Y' + 1)"
  shows "Y = Y'"
proof (rule ccontr)
  assume "Y \<noteq> Y'"
  then consider "Y + 1 \<le> Y'" | "Y' + 1 \<le> Y" by linarith
  then show False
    using assms days_before_year_mono [of "Y + 1" Y'] days_before_year_mono [of "Y' + 1" Y]
    by cases auto
qed

lemma month_length_bounds: "28 \<le> month_length y m" "month_length y m \<le> 31"
  by (simp_all add: month_length_def)

lemma days_before_month_1 [simp]: "days_before_month y 1 = 0"
  by (simp add: days_before_month_def)

lemma days_before_month_succ:
  "1 \<le> m \<Longrightarrow> days_before_month y (m + 1) = days_before_month y m + month_length y m"
  by (simp add: days_before_month_def upto_rec2)

lemma days_before_month_mono:
  assumes "1 \<le> m" "m \<le> m'" shows "days_before_month y m \<le> days_before_month y m'"
proof -
  have "days_before_month y m \<le> days_before_month y (m + int k)" for k
  proof (induction k)
    case 0 then show ?case by simp
  next
    case (Suc k)
    then show ?case
      using days_before_month_succ [of "m + int k" y] month_length_bounds(1) [of y "m + int k"] assms(1)
      by (simp add: add.assoc add.commute [of 1])
  qed
  from this [of "nat (m' - m)"] assms show ?thesis by simp
qed

lemma days_in_year: "days_before_month y 12 + month_length y 12 = year_length y"
  by (simp add: days_before_month_def month_length_def year_length_def upto.simps)

lemma find_month_correct:
  assumes "1 \<le> m0" "m0 \<le> 12" "days_before_month y m0 \<le> r"
  shows "m0 \<le> find_month y r m0 \<and> find_month y r m0 \<le> 12 \<and>
         days_before_month y (find_month y r m0) \<le> r \<and>
         (find_month y r m0 < 12 \<longrightarrow> r < days_before_month y (find_month y r m0 + 1))"
  using assms
proof (induction y r m0 rule: find_month.induct)
  case (1 y r m)
  show ?case
  proof (cases "m < 12 \<and> days_before_month y (m + 1) \<le> r")
    case True
    with "1.IH" [OF True] "1.prems" show ?thesis
      by (subst (1 2 3 4 5) find_month.simps) simp
  next
    case False
    with "1.prems" show ?thesis
      by (subst (1 2 3 4 5) find_month.simps) auto
  qed
qed

lemma find_month_unique:
  assumes "1 \<le> m" "m \<le> 12" "days_before_month y m \<le> r"
    and "m < 12 \<longrightarrow> r < days_before_month y (m + 1)"
  shows "find_month y r 1 = m"
proof -
  let ?m = "find_month y r 1"
  have "0 \<le> r" using days_before_month_mono [of 1 m y] assms by simp
  then have c: "1 \<le> ?m" "?m \<le> 12" "days_before_month y ?m \<le> r"
    "?m < 12 \<longrightarrow> r < days_before_month y (?m + 1)"
    using find_month_correct [of 1 y r] by simp_all
  show ?thesis
  proof (rule ccontr)
    assume "?m \<noteq> m"
    then consider "?m + 1 \<le> m" | "m + 1 \<le> ?m" by linarith
    then show False
      using assms c days_before_month_mono [of "?m + 1" m y] days_before_month_mono [of "m + 1" ?m y]
      by cases auto
  qed
qed

lemma days_before_month_13: "days_before_month y 13 = year_length y"
  using days_before_month_succ [of 12 y] days_in_year [of y] by simp

lemma month_end_le_year:
  "1 \<le> m \<Longrightarrow> m \<le> 12 \<Longrightarrow> days_before_month y m + month_length y m \<le> year_length y"
  using days_before_month_mono [of "m + 1" 13 y] days_before_month_succ [of m y]
  by (simp add: days_before_month_13)

lemma find_year_Some: "\<exists>Y. find_year n y = Some Y"
proof (cases "days_before_year y \<le> n")
  case True then show ?thesis using find_year_correct [of y n] by blast
next
  case False
  then have "n < days_before_year (y + 1)"
    using days_before_year_mono_step [of y] by simp
  then show ?thesis by (simp add: find_year_stops)
qed

lemma civil_of_days_year:
  assumes "days_before_year y \<le> n" "n < days_before_year (y + 1)"
  shows "civil_of_days n =
           (let r = n - days_before_year y; m = find_month y r 1
            in Some (y, m, r - days_before_month y m + 1))"
proof -
  obtain Y where Y: "find_year n (start_year n) = Some Y" "days_before_year Y \<le> n"
      "n < days_before_year (Y + 1)"
    using find_year_correct [OF start_year_le [of n]] by blast
  with assms have "Y = y" using year_unique by blast
  with Y show ?thesis by (simp add: civil_of_days_def)
qed

lemma civil_of_days_of_civil:
  assumes "valid_date c"
  shows "civil_of_days (days_of_civil c) = Some c"
proof -
  obtain y m d where c: "c = (y, m, d)" by (cases c) blast
  with assms have v: "1 \<le> m" "m \<le> 12" "1 \<le> d" "d \<le> month_length y m"
    by (simp_all add: valid_date_def)
  let ?r = "days_before_month y m + (d - 1)"
  have "0 \<le> days_before_month y m" using days_before_month_mono [of 1 m y] v by simp
  then have lo: "days_before_year y \<le> days_of_civil c"
    using v by (simp add: c days_of_civil_def)
  have "?r < year_length y" using month_end_le_year [of m y] v by simp
  then have hi: "days_of_civil c < days_before_year (y + 1)"
    by (simp add: c days_of_civil_def days_before_year_succ)
  have "find_month y ?r 1 = m"
    using v days_before_month_succ [of m y] by (intro find_month_unique) simp_all
  then show ?thesis
    using civil_of_days_year [OF lo hi] by (simp add: c days_of_civil_def Let_def)
qed

lemma days_of_civil_of_days:
  assumes "civil_of_days n = Some c"
  shows "valid_date c \<and> days_of_civil c = n"
proof -
  obtain y where y: "days_before_year y \<le> n" "n < days_before_year (y + 1)"
    using find_year_correct [OF start_year_le [of n]] by blast
  define r where "r = n - days_before_year y"
  define m where "m = find_month y r 1"
  have r: "0 \<le> r" "r < year_length y"
    using y by (simp_all add: r_def days_before_year_succ)
  have c: "c = (y, m, r - days_before_month y m + 1)"
    using assms civil_of_days_year [OF y] by (simp add: Let_def r_def m_def)
  have m: "1 \<le> m" "m \<le> 12" "days_before_month y m \<le> r"
      "m < 12 \<longrightarrow> r < days_before_month y (m + 1)"
    using find_month_correct [of 1 y r] r by (simp_all add: m_def)
  have "r < days_before_month y m + month_length y m"
  proof (cases "m < 12")
    case True then show ?thesis using m days_before_month_succ [of m y] by simp
  next
    case False
    then have "m = 12" using m by simp
    then show ?thesis using r days_in_year [of y] by simp
  qed
  then show ?thesis
    using m by (simp add: c valid_date_def days_of_civil_def r_def)
qed

subsection \<open>Fixed-width digits\<close>

lemma pad_digits_roundtrip: "k < 10 ^ w \<Longrightarrow> digits_value (pad_digits w k) = k"
proof (induction w arbitrary: k)
  case 0 then show ?case by (simp add: digits_value_def)
next
  case (Suc w)
  then have "k div 10 < 10 ^ w" by (simp add: div_less_iff_less_mult mult.commute)
  with Suc.IH show ?case by (simp add: digits_value_snoc of_char_digit)
qed

lemma pad_digits_numeral:
  "pad_digits (numeral w) k = pad_digits (pred_numeral w) (k div 10) @ [char_of (48 + k mod 10)]"
  unfolding numeral_eq_Suc [of w] by (rule pad_digits.simps(2))

lemma length_pad_digits [simp]: "length (pad_digits w k) = w"
  by (induction w arbitrary: k) simp_all

lemma pad_digits_digits: "list_all is_digit (pad_digits w k)"
  by (induction w arbitrary: k) (simp_all add: is_digit_def of_char_of)

lemma digits_pad_digits:
  "list_all is_digit cs \<Longrightarrow> pad_digits (length cs) (digits_value cs) = cs"
proof (induction cs rule: rev_induct)
  case Nil then show ?case by simp
next
  case (snoc c cs)
  let ?v = "of_char c - 48 :: nat"
  have c: "48 \<le> (of_char c :: nat)" "(of_char c :: nat) \<le> 57" using snoc.prems by (simp_all add: is_digit_def)
  then have "?v < 10" by simp
  then have "(10 * digits_value cs + ?v) div 10 = digits_value cs"
    and "(10 * digits_value cs + ?v) mod 10 = ?v" by simp_all
  moreover have "char_of (48 + ?v) = c" using c by (simp add: char_of_nat)
  ultimately show ?case using snoc by (simp add: digits_value_snoc)
qed

lemma ns_per_day_val: "ns_per_day = 86400000000000"
  by (simp add: ns_per_day_def)

lemma in_timestamp_range_iff: "in_timestamp_range n \<longleftrightarrow> - 106751 \<le> n \<and> n \<le> 106751"
proof
  assume h: "in_timestamp_range n"
  show "- 106751 \<le> n \<and> n \<le> 106751"
  proof (rule ccontr)
    assume "\<not> (- 106751 \<le> n \<and> n \<le> 106751)"
    then consider "n \<le> - 106752" | "106752 \<le> n" by linarith
    then show False
    proof cases
      case 1
      then have "n * ns_per_day \<le> - 106752 * ns_per_day"
        by (intro mult_right_mono) (simp_all add: ns_per_day_val)
      with h show False by (simp add: in_timestamp_range_def ns_per_day_val)
    next
      case 2
      then have "106752 * ns_per_day \<le> n * ns_per_day"
        by (intro mult_right_mono) (simp_all add: ns_per_day_val)
      with h show False by (simp add: in_timestamp_range_def ns_per_day_val)
    qed
  qed
next
  assume h: "- 106751 \<le> n \<and> n \<le> 106751"
  then have "- 106751 * ns_per_day \<le> n * ns_per_day" "n * ns_per_day \<le> 106751 * ns_per_day"
    by (intro mult_right_mono; simp add: ns_per_day_val)+
  then show "in_timestamp_range n" by (simp add: in_timestamp_range_def ns_per_day_val)
qed

subsection \<open>Parsing and printing\<close>

lemma string_10_split:
  "length s = 10 \<Longrightarrow> s = take 4 s @ s ! 4 # take 2 (drop 5 s) @ s ! 7 # drop 8 s"
  by (auto simp: length_Suc_conv eval_nat_numeral)

lemma format_iso_parts:
  "format_iso (y, m, d) = pad_digits 4 (nat y) @ CHR ''-'' # pad_digits 2 (nat m) @ CHR ''-'' # pad_digits 2 (nat d)"
  by (simp add: format_iso_def)

lemma parse_iso_format_iso_if:
  assumes "valid_date (y, m, d)" "0 \<le> y" "y < 10000"
  shows "parse_iso (format_iso (y, m, d)) =
           (if in_timestamp_range (days_of_civil (y, m, d)) then Some (days_of_civil (y, m, d)) else None)"
proof -
  have v: "1 \<le> m" "m \<le> 12" "1 \<le> d" "d \<le> 31"
    using assms(1) month_length_bounds(2) [of y m] by (simp_all add: valid_date_def)
  have "digits_value (pad_digits 4 (nat y)) = nat y"
    using assms(3) by (intro pad_digits_roundtrip) simp
  moreover have "digits_value (pad_digits 2 (nat m)) = nat m"
    using v by (intro pad_digits_roundtrip) simp
  moreover have "digits_value (pad_digits 2 (nat d)) = nat d"
    using v by (intro pad_digits_roundtrip) simp
  ultimately show ?thesis
    using assms v pad_digits_digits [of 4 "nat y"] pad_digits_digits [of 2 "nat m"] pad_digits_digits [of 2 "nat d"]
    by (simp add: parse_iso_def format_iso_parts nth_append)
qed

lemma parse_iso_format_iso:
  assumes "valid_date (y, m, d)" "0 \<le> y" "y < 10000" "in_timestamp_range (days_of_civil (y, m, d))"
  shows "parse_iso (format_iso (y, m, d)) = Some (days_of_civil (y, m, d))"
  using parse_iso_format_iso_if [OF assms(1-3)] assms(4) by simp

lemma parse_iso_out_of_range:
  assumes "valid_date (y, m, d)" "0 \<le> y" "y < 10000" "\<not> in_timestamp_range (days_of_civil (y, m, d))"
  shows "parse_iso (format_iso (y, m, d)) = None"
  using parse_iso_format_iso_if [OF assms(1-3)] assms(4) by simp

lemma timestamp_years:
  assumes "days_before_year y \<le> n" "n < days_before_year (y + 1)" "in_timestamp_range n"
  shows "1677 \<le> y \<and> y \<le> 2262"
proof -
  have n: "- 106751 \<le> n" "n \<le> 106751" using assms(3) by (simp_all add: in_timestamp_range_iff)
  have "days_before_year 2263 = 107016" and "days_before_year 1677 = - 107015"
    by (simp_all add: days_before_year_def leaps_before_def)
  then have "\<not> 2263 \<le> y" and "\<not> y + 1 \<le> 1677"
    using assms(1,2) n days_before_year_mono [of 2263 y] days_before_year_mono [of "y + 1" 1677] by auto
  then show ?thesis by simp
qed

lemma civil_of_days_Some: "\<exists>c. civil_of_days n = Some c"
  using find_year_Some [of n "start_year n"] by (auto simp: civil_of_days_def Let_def split: option.splits)

lemma format_day_roundtrip:
  assumes "in_timestamp_range n"
  shows "\<exists>s. format_day n = Some s \<and> parse_iso s = Some n"
proof -
  obtain c where c: "civil_of_days n = Some c"
    using civil_of_days_Some by blast
  obtain y m d where cd: "c = (y, m, d)" by (cases c) blast
  have vc: "valid_date c" "days_of_civil c = n" using days_of_civil_of_days [OF c] by simp_all
  obtain Y where Y: "days_before_year Y \<le> n" "n < days_before_year (Y + 1)"
    using find_year_correct [OF start_year_le [of n]] by blast
  have "civil_of_days n = Some (Y, find_month Y (n - days_before_year Y) 1,
          n - days_before_year Y - days_before_month Y (find_month Y (n - days_before_year Y) 1) + 1)"
    using civil_of_days_year [OF Y] by (simp add: Let_def)
  then have "y = Y" using c cd by simp
  then have "1677 \<le> y \<and> y \<le> 2262" using timestamp_years [OF Y assms] by simp
  then have "parse_iso (format_iso c) = Some n"
    using parse_iso_format_iso [of y m d] vc assms cd by simp
  then show ?thesis using c by (simp add: format_day_def)
qed

lemma parse_iso_Some:
  assumes "parse_iso s = Some n"
  obtains y m d where "s = format_iso (y, m, d)" "valid_date (y, m, d)" "days_of_civil (y, m, d) = n"
    "in_timestamp_range n"
proof -
  let ?ys = "take 4 s" and ?ms = "take 2 (drop 5 s)" and ?ds = "drop 8 s"
  let ?c = "(int (digits_value ?ys), int (digits_value ?ms), int (digits_value ?ds))"
  have h: "length s = 10" "s ! 4 = CHR ''-''" "s ! 7 = CHR ''-''" "list_all is_digit (?ys @ ?ms @ ?ds)"
      "valid_date ?c" "in_timestamp_range (days_of_civil ?c)" "days_of_civil ?c = n"
    using assms by (simp_all add: parse_iso_def Let_def split: if_splits)
  have "pad_digits 4 (digits_value ?ys) = ?ys" "pad_digits 2 (digits_value ?ms) = ?ms"
      "pad_digits 2 (digits_value ?ds) = ?ds"
    using digits_pad_digits [of ?ys] digits_pad_digits [of ?ms] digits_pad_digits [of ?ds] h(1,4)
    by simp_all
  then have "s = format_iso ?c"
    using string_10_split [OF h(1)] h(2,3) by (simp add: format_iso_parts)
  with h show ?thesis using that by simp
qed

lemma parse_iso_canonical:
  assumes "parse_iso s = Some n"
  shows "format_day n = Some s"
proof -
  obtain y m d where s: "s = format_iso (y, m, d)" and v: "valid_date (y, m, d)"
      and n: "days_of_civil (y, m, d) = n"
    using parse_iso_Some [OF assms] by blast
  have "civil_of_days n = Some (y, m, d)"
    using civil_of_days_of_civil [OF v] by (simp only: n)
  then show ?thesis by (simp add: format_day_def s)
qed

lemma parse_iso_in_range: "parse_iso s = Some n \<Longrightarrow> in_timestamp_range n"
  by (simp add: parse_iso_def Let_def split: if_splits)

end
