(* ===== verification/Frame.thy ===== *)
theory Frame
  imports Calendar "HOL-Library.List_Lexorder" "HOL-Library.Char_ord"
begin

text \<open>
  The data model of \<open>src/dashboard.py\<close> and the script's steps before aggregation:
  the rows of \<open>All_Data.csv\<close> as read (\<open>raw_rental\<close>), the rows of \<open>all_df\<close> after
  \<open>pd.to_datetime\<close> (\<open>rental\<close>, with the \<open>day_type\<close> column that
  \<open>create_weekday_weekend_df\<close> adds later), the loader of lines 44--49
  (\<open>load_all_df\<close>), the bounds of the date picker of lines 52--53
  (\<open>min_date\<close>, \<open>max_date\<close>), the tuple unpacking of the picker's result on
  line 60 (\<open>unpack_date_range\<close>) and the date filter of line 68
  (\<open>filter_range\<close>). A dataframe is the list of its rows in index order.
\<close>

subsection \<open>The \<open>day_type\<close> column's values\<close>

text \<open>
  The lambda of line 34 writes one of two string literals into the \<open>day_type\<close>
  column; the datatype names them, \<open>day_type_label\<close> gives the literal, and the order
  instance is the order pandas' \<open>groupby\<close> sorts the literals in.
\<close>

datatype day_type = Weekday | Weekend

definition day_type_label :: "day_type \<Rightarrow> string" where
  "day_type_label t = (case t of Weekday \<Rightarrow> ''Weekday'' | Weekend \<Rightarrow> ''Weekend'')"

instantiation day_type :: linorder
begin

definition less_eq_day_type :: "day_type \<Rightarrow> day_type \<Rightarrow> bool" where
  "less_eq_day_type a b \<longleftrightarrow> a = Weekday \<or> b = Weekend"

definition less_day_type :: "day_type \<Rightarrow> day_type \<Rightarrow> bool" where
  "less_day_type a b \<longleftrightarrow> a = Weekday \<and> b = Weekend"

instance
proof
  fix x y z :: day_type
  show "x < y \<longleftrightarrow> x \<le> y \<and> \<not> y \<le> x"
    by (cases x; cases y) (simp_all add: less_eq_day_type_def less_day_type_def)
  show "x \<le> x"
    by (cases x) (simp_all add: less_eq_day_type_def)
  show "x \<le> y \<Longrightarrow> y \<le> z \<Longrightarrow> x \<le> z"
    by (cases x; cases y; cases z) (simp_all add: less_eq_day_type_def)
  show "x \<le> y \<Longrightarrow> y \<le> x \<Longrightarrow> x = y"
    by (cases x; cases y) (simp_all add: less_eq_day_type_def)
  show "x \<le> y \<or> y \<le> x"
    by (cases x; cases y) (simp_all add: less_eq_day_type_def)
qed

end

subsection \<open>Rows and frames\<close>

text \<open>
  \<open>dteday\<close> is the parsed date (a day number, see the prelude); \<open>weekday\<close> and
  \<open>cnt\<close> are the integer columns of the file; \<open>day_type\<close> is \<open>None\<close> until line 34
  assigns the column.
\<close>

record rental =
  dteday :: day
  weekday :: int
  cnt :: int
  day_type :: "day_type option"

type_synonym frame = "rental list"

text \<open>A row of \<open>All_Data.csv\<close> as \<open>pd.read_csv\<close> gives it, \<open>dteday\<close> still a string.\<close>

record raw_rental =
  raw_dteday :: string
  raw_weekday :: int
  raw_cnt :: int

subsection \<open>Loading: lines 44--49\<close>

text \<open>
  \<open>pd.to_datetime\<close> is a library parser; the loader is stated over any parser
  \<open>to_datetime :: string \<Rightarrow> day option\<close> (\<open>None\<close>: the string is rejected), so
  that its lemmas hold whichever date formats the parser accepts. A single rejected
  string makes the whole conversion raise, as \<open>pd.to_datetime\<close> does on a column.
\<close>

definition parse_rental :: "(string \<Rightarrow> day option) \<Rightarrow> raw_rental \<Rightarrow> rental option" where
  "parse_rental to_datetime r =
     map_option (\<lambda>d. \<lparr>dteday = d, weekday = raw_weekday r, cnt = raw_cnt r, day_type = None\<rparr>)
       (to_datetime (raw_dteday r))"

text \<open>
  \<open>sort_values(by="dteday")\<close> then \<open>reset_index(drop=True)\<close>: the rows in date
  order, renumbered. pandas' default sort is not stable, so the order among rows of the
  same date is not fixed by the source; \<open>sort_key\<close> is one admissible order, and the
  aggregation lemmas hold for every permutation of the rows.
\<close>

definition load_all_df :: "(string \<Rightarrow> day option) \<Rightarrow> raw_rental list \<Rightarrow> error + frame" where
  "load_all_df to_datetime raws =
     (case those (map (parse_rental to_datetime) raws) of
        None \<Rightarrow> Inl ParseError
      | Some rows \<Rightarrow> Inr (sort_key dteday rows))"

text \<open>The row a parsed raw row becomes (the date read through the parser).\<close>

definition parsed_row :: "(string \<Rightarrow> day option) \<Rightarrow> raw_rental \<Rightarrow> rental" where
  "parsed_row to_datetime r =
     \<lparr>dteday = the (to_datetime (raw_dteday r)), weekday = raw_weekday r, cnt = raw_cnt r,
      day_type = None\<rparr>"

subsection \<open>Date picker bounds and selection: lines 52--65\<close>

definition min_date :: "frame \<Rightarrow> day option" where
  "min_date df = series_min (map dteday df)"

definition max_date :: "frame \<Rightarrow> day option" where
  "max_date df = series_max (map dteday df)"

text \<open>
  \<open>start_date, end_date = st.date_input(...)\<close>: the widget returns a tuple of the
  dates picked so far (none, one while a range is being picked, or two); unpacking
  anything but a pair raises \<open>ValueError\<close>.
\<close>

definition unpack_date_range :: "day list \<Rightarrow> error + (day \<times> day)" where
  "unpack_date_range sel = (case sel of [s, e] \<Rightarrow> Inr (s, e) | _ \<Rightarrow> Inl ValueError)"

subsection \<open>The date filter: line 68\<close>

definition filter_range :: "frame \<Rightarrow> day \<Rightarrow> day \<Rightarrow> frame" where
  "filter_range df start_date end_date =
     filter (\<lambda>r. start_date \<le> dteday r \<and> dteday r \<le> end_date) df"

subsection \<open>Example inputs\<close>

text \<open>
  The spec's example file (two rows, 2021-01-01 and 2021-01-02, day numbers 18628 and
  18629 counted from 1970-01-01), a parser that knows its two dates, and a small frame
  with a repeated date and a day without rows, used to instantiate the theorems.
\<close>

definition example_parser :: "string \<Rightarrow> day option" where
  "example_parser = [''2021-01-01'' \<mapsto> 18628, ''2021-01-02'' \<mapsto> 18629]"

definition example_raws :: "raw_rental list" where
  "example_raws =
     [\<lparr>raw_dteday = ''2021-01-01'', raw_weekday = 4, raw_cnt = 100\<rparr>,
      \<lparr>raw_dteday = ''2021-01-02'', raw_weekday = 5, raw_cnt = 50\<rparr>]"

definition example_frame :: frame where
  "example_frame =
     [\<lparr>dteday = 18628, weekday = 4, cnt = 100, day_type = None\<rparr>,
      \<lparr>dteday = 18630, weekday = 6, cnt = 50, day_type = None\<rparr>,
      \<lparr>dteday = 18628, weekday = 4, cnt = 7, day_type = None\<rparr>]"

subsection \<open>The order of the \<open>day_type\<close> values is the order of their literals\<close>

lemma day_type_label_inj: "day_type_label a = day_type_label b \<longleftrightarrow> a = b"
  by (cases a; cases b) (simp_all add: day_type_label_def)

lemma day_type_label_less: "day_type_label a < day_type_label b \<longleftrightarrow> a < b"
  by (cases a; cases b) (simp_all add: day_type_label_def less_day_type_def less_list_code)

subsection \<open>Loader\<close>

lemma parse_rental_None: "parse_rental p r = None \<longleftrightarrow> p (raw_dteday r) = None"
  by (simp add: parse_rental_def)

lemma parse_rental_the:
  "p (raw_dteday r) \<noteq> None \<Longrightarrow> the (parse_rental p r) = parsed_row p r"
  by (auto simp: parse_rental_def parsed_row_def)

lemma load_all_df_Inr:
  "load_all_df p raws = Inr df \<longleftrightarrow>
     (\<forall>r\<in>set raws. p (raw_dteday r) \<noteq> None) \<and> df = sort_key dteday (map (parsed_row p) raws)"
proof (cases "\<forall>r\<in>set raws. p (raw_dteday r) \<noteq> None")
  case True
  then have "map (parsed_row p) raws = map (\<lambda>r. the (parse_rental p r)) raws"
    by (simp add: parse_rental_the)
  with True have "those (map (parse_rental p) raws) = Some (map (parsed_row p) raws)"
    by (simp add: those_map_Some parse_rental_None)
  with True show ?thesis by (auto simp: load_all_df_def)
next
  case False
  then have "those (map (parse_rental p) raws) = None"
    by (auto simp: those_map_None parse_rental_None)
  with False show ?thesis by (simp add: load_all_df_def)
qed

lemma load_all_df_Inl: "load_all_df p raws = Inl e \<Longrightarrow> e = ParseError"
  by (simp add: load_all_df_def split: option.splits)

subsection \<open>Picker bounds\<close>

lemma min_date_Some:
  "min_date df = Some lo \<longleftrightarrow> (\<exists>r\<in>set df. dteday r = lo) \<and> (\<forall>r\<in>set df. lo \<le> dteday r)"
  by (auto simp: min_date_def series_min_Some)

lemma max_date_Some:
  "max_date df = Some hi \<longleftrightarrow> (\<exists>r\<in>set df. dteday r = hi) \<and> (\<forall>r\<in>set df. dteday r \<le> hi)"
  by (auto simp: max_date_def series_max_Some)

lemma min_max_date_Nil [simp]: "min_date [] = None" "max_date [] = None"
  by (simp_all add: min_date_def max_date_def)

lemma min_date_None [simp]: "min_date df = None \<longleftrightarrow> df = []"
  by (simp add: min_date_def)

lemma max_date_None [simp]: "max_date df = None \<longleftrightarrow> df = []"
  by (simp add: max_date_def)

subsection \<open>Filter\<close>

lemma set_filter_range [simp]:
  "r \<in> set (filter_range df s e) \<longleftrightarrow> r \<in> set df \<and> s \<le> dteday r \<and> dteday r \<le> e"
  by (auto simp: filter_range_def)

lemma mset_filter_range:
  "mset df = mset df' \<Longrightarrow> mset (filter_range df s e) = mset (filter_range df' s e)"
  by (simp add: filter_range_def)

lemma filter_range_before:
  "min_date df = Some lo \<Longrightarrow> e < lo \<Longrightarrow> filter_range df s e = []"
  by (fastforce simp: filter_range_def min_date_Some filter_empty_conv)

lemma filter_range_bounds:
  "min_date df = Some lo \<Longrightarrow> max_date df = Some hi \<Longrightarrow> filter_range df lo hi = df"
  by (auto simp: filter_range_def min_date_Some max_date_Some)

lemma unpack_date_range_Inr: "unpack_date_range sel = Inr (s, e) \<longleftrightarrow> sel = [s, e]"
  by (simp add: unpack_date_range_def split: list.splits)

lemma unpack_date_range_Inl: "unpack_date_range sel = Inl err \<longleftrightarrow> length sel \<noteq> 2 \<and> err = ValueError"
  by (auto simp: unpack_date_range_def numeral_2_eq_2 split: list.splits)

text \<open>
  C4. Filtering with the dataset's own first and last dates (the picker's default
  value) keeps every row, in order.
\<close>

theorem filter_range_full:
  assumes "min_date df = Some lo" and "max_date df = Some hi"
  shows "filter_range df lo hi = df"
  using assms by (rule filter_range_bounds)

theorem filter_range_full_witness: "filter_range example_frame 18628 18630 = example_frame"
  using filter_range_full [of example_frame 18628 18630]
  by (simp add: example_frame_def min_date_def max_date_def series_min_def series_max_def)

text \<open>
  C5. A one-day range keeps exactly the rows of that day, in order.
\<close>

theorem filter_range_single_day: "filter_range df d d = filter (\<lambda>r. dteday r = d) df"
  unfolding filter_range_def by (rule filter_cong) auto

text \<open>
  C10. A successful load yields the file's rows, each with its parsed date, sorted
  ascending by date; none is lost or duplicated.
\<close>

theorem load_all_df_sorted_perm:
  assumes "load_all_df p raws = Inr df"
  shows "sorted (map dteday df) \<and> mset df = mset (map (parsed_row p) raws)"
  using assms by (simp add: load_all_df_Inr)

theorem load_all_df_sorted_perm_witness:
  "sorted (map dteday (sort_key dteday (map (parsed_row example_parser) example_raws))) \<and>
   mset (sort_key dteday (map (parsed_row example_parser) example_raws))
     = mset (map (parsed_row example_parser) example_raws)"
  using load_all_df_sorted_perm [of example_parser example_raws
      "sort_key dteday (map (parsed_row example_parser) example_raws)"]
  by (simp add: load_all_df_Inr example_raws_def example_parser_def)

text \<open>
  C11. Loading fails, with \<open>ParseError\<close>, exactly when the parser rejects the
  \<open>dteday\<close> string of some row.
\<close>

theorem load_all_df_parse_error:
  "load_all_df p raws = Inl ParseError \<longleftrightarrow> (\<exists>r\<in>set raws. p (raw_dteday r) = None)"
proof -
  have "load_all_df p raws = Inl ParseError \<longleftrightarrow> those (map (parse_rental p) raws) = None"
    by (simp add: load_all_df_def split: option.splits)
  then show ?thesis
    by (simp add: those_map_None parse_rental_None)
qed

theorem load_all_df_parse_error_witness:
  "load_all_df (example_parser(''2021-01-02'' := None)) example_raws = Inl ParseError"
  using load_all_df_parse_error [of "example_parser(''2021-01-02'' := None)" example_raws]
  by (simp add: example_raws_def)

subsection \<open>Loading with the ISO date parser\<close>

text \<open>
  The theorems below instantiate the parser with \<open>parse_iso\<close> of the theory
  Calendar, the behaviour of \<open>pd.to_datetime\<close> on the dataset's \<open>YYYY-MM-DD\<close>
  strings.
\<close>

lemma load_all_df_reject:
  "r \<in> set raws \<Longrightarrow> p (raw_dteday r) = None \<Longrightarrow> load_all_df p raws = Inl ParseError"
  by (auto simp: load_all_df_def those_map_None parse_rental_None split: option.splits)

lemma load_all_df_rows:
  assumes "load_all_df p raws = Inr df"
  shows "mset df = mset (map (parsed_row p) raws) \<and> (\<forall>r\<in>set raws. p (raw_dteday r) \<noteq> None)"
  using assms by (simp add: load_all_df_Inr)

lemma loaded_date_parsed:
  assumes "load_all_df p raws = Inr df" and "x \<in> set df"
  obtains r where "r \<in> set raws" "p (raw_dteday r) = Some (dteday x)"
proof -
  from load_all_df_rows [OF assms(1)] have
    m: "mset df = mset (map (parsed_row p) raws)" and ok: "\<forall>r\<in>set raws. p (raw_dteday r) \<noteq> None"
    by simp_all
  have "x \<in> set (map (parsed_row p) raws)" using mset_eq_setD [OF m] assms(2) by simp
  then obtain r where "r \<in> set raws" "x = parsed_row p r" by auto
  with ok show ?thesis using that by (auto simp: parsed_row_def)
qed

text \<open>
  C25. Round trip through the loader: the \<open>dteday\<close> values of a loaded frame, printed
  as dates, are exactly the strings of the file's \<open>dteday\<close> column, each as often as
  it occurs there (the conversion of line 47 loses nothing and invents nothing).
\<close>

theorem load_dates_roundtrip:
  assumes "load_all_df parse_iso raws = Inr df"
  shows "mset (map (\<lambda>r. format_day (dteday r)) df) = mset (map (\<lambda>r. Some (raw_dteday r)) raws)"
proof -
  from load_all_df_rows [OF assms] have
    m: "mset df = mset (map (parsed_row parse_iso) raws)" and
    ok: "\<forall>r\<in>set raws. parse_iso (raw_dteday r) \<noteq> None" by simp_all
  have e: "map (\<lambda>r. format_day (dteday (parsed_row parse_iso r))) raws = map (\<lambda>r. Some (raw_dteday r)) raws"
  proof (rule map_cong [OF refl])
    fix r assume "r \<in> set raws"
    with ok obtain n where "parse_iso (raw_dteday r) = Some n" by blast
    then show "format_day (dteday (parsed_row parse_iso r)) = Some (raw_dteday r)"
      by (simp add: parsed_row_def parse_iso_canonical)
  qed
  have m2: "mset (map (\<lambda>r. format_day (dteday r)) df)
      = mset (map (\<lambda>r. format_day (dteday (parsed_row parse_iso r))) raws)"
    by (simp add: m multiset.map_comp comp_def)
  show ?thesis by (simp only: m2 e)
qed

theorem load_dates_roundtrip_witness:
  "mset (map (\<lambda>r. format_day (dteday r)) (sort_key dteday (map (parsed_row parse_iso) example_raws)))
     = mset (map (\<lambda>r. Some (raw_dteday r)) example_raws)"
proof -
  have "parse_iso ''2021-01-01'' = Some 18628" "parse_iso ''2021-01-02'' = Some 18629"
    by (simp_all add: parse_iso_def is_digit_def digits_value_def valid_date_def month_length_def
        is_leap_def days_of_civil_def days_before_year_def leaps_before_def days_before_month_def
        in_timestamp_range_def ns_per_day_def)
  then have "load_all_df parse_iso example_raws = Inr (sort_key dteday (map (parsed_row parse_iso) example_raws))"
    by (simp add: load_all_df_Inr example_raws_def)
  then show ?thesis by (rule load_dates_roundtrip)
qed

text \<open>
  C26. A well-formed date outside the range of pandas timestamps, anywhere in the
  file, makes the load fail with \<open>ParseError\<close> (pandas raises
  \<open>OutOfBoundsDatetime\<close>): the script does not start.
\<close>

theorem load_out_of_bounds_date:
  assumes "r \<in> set raws" and "raw_dteday r = format_iso (y, m, d)"
    and "valid_date (y, m, d)" and "0 \<le> y" and "y < 10000"
    and "\<not> in_timestamp_range (days_of_civil (y, m, d))"
  shows "load_all_df parse_iso raws = Inl ParseError"
proof -
  have "parse_iso (format_iso (y, m, d)) = None"
    using assms(3-6) by (rule parse_iso_out_of_range)
  then have "parse_iso (raw_dteday r) = None"
    by (simp only: assms(2))
  then show ?thesis by (rule load_all_df_reject [OF assms(1)])
qed

theorem load_out_of_bounds_date_witness:
  "load_all_df parse_iso [\<lparr>raw_dteday = ''2262-04-12'', raw_weekday = 5, raw_cnt = 1\<rparr>] = Inl ParseError"
proof -
  let ?r = "\<lparr>raw_dteday = ''2262-04-12'', raw_weekday = 5, raw_cnt = 1\<rparr>"
  have "format_iso (2262, 4, 12) = ''2262-04-12''"
    by (simp add: format_iso_def pad_digits_numeral char_of_eq_iff)
  then have f: "raw_dteday ?r = format_iso (2262, 4, 12)" by simp
  have b: "\<not> in_timestamp_range (days_of_civil (2262, 4, 12))"
    by (simp add: in_timestamp_range_iff days_of_civil_def days_before_year_def leaps_before_def
        days_before_month_def month_length_def is_leap_def upto.simps)
  have v: "valid_date (2262, 4, 12)"
    by (simp add: valid_date_def month_length_def)
  show ?thesis
    by (rule load_out_of_bounds_date [of ?r "[?r]" 2262 4 12, OF _ f v _ _ b]) simp_all
qed

end
