(* ===== verification/Daily.thy ===== *)
theory Daily
  imports Frame "HOL-Library.Word"
begin

text \<open>
  The Daily Aggregator: \<open>create_daily_orders_df\<close> (lines 14--29 of
  \<open>src/dashboard.py\<close>) and the metric of line 75. \<open>df.resample(rule='D',
  on='dteday').agg({"cnt": "sum"})\<close> puts every row into the bin of its calendar day and
  emits one bin for every day from the column's minimum to its maximum, empty days
  included with sum 0; an empty frame gives no bins. The bins are filled in one pass
  (\<open>day_bins\<close>, the keyed accumulation of the prelude). \<open>reset_index\<close> and the
  rename turn the bins into rows with columns \<open>dteday\<close> and \<open>total_rentals\<close>.
  Line 16 re-assigns \<open>dteday\<close> with \<open>pd.to_datetime\<close> of itself; the column is
  already a date column, so the frame is unchanged and the model omits the write.
\<close>

record daily_row =
  daily_dteday :: day
  total_rentals :: int

definition day_bins :: "frame \<Rightarrow> (day \<rightharpoonup> int)" where
  "day_bins df = group_acc Map.empty (map (\<lambda>r. (dteday r, cnt r)) df)"

definition resample_sum :: "frame \<Rightarrow> (day \<times> int) list" where
  "resample_sum df =
     (case (min_date df, max_date df) of
        (Some lo, Some hi) \<Rightarrow>
          map (\<lambda>d. (d, case day_bins df d of None \<Rightarrow> 0 | Some s \<Rightarrow> s)) [lo..hi]
      | _ \<Rightarrow> [])"

definition create_daily_orders_df :: "frame \<Rightarrow> daily_row list" where
  "create_daily_orders_df df =
     map (\<lambda>(d, s). \<lparr>daily_dteday = d, total_rentals = s\<rparr>) (resample_sum df)"

text \<open>Line 75: \<open>total_orders = daily_orders_df.total_rentals.sum()\<close>.\<close>

definition total_orders :: "daily_row list \<Rightarrow> int" where
  "total_orders daily = sum_list (map total_rentals daily)"

text \<open>
  The same sum as numpy computes it on the \<open>int64\<close> column: every addition wraps
  modulo \<open>2^64\<close>; \<open>sint\<close> reads the result back as a signed value.
\<close>

definition total_orders_int64 :: "daily_row list \<Rightarrow> 64 word" where
  "total_orders_int64 daily = sum_list (map (\<lambda>r. word_of_int (total_rentals r)) daily)"

subsection \<open>Reference: the rentals of one calendar day\<close>

definition day_total :: "frame \<Rightarrow> day \<Rightarrow> int" where
  "day_total df d = sum_list (map cnt (filter (\<lambda>r. dteday r = d) df))"

text \<open>
  The abstract daily report: for every day of the frame's span, the rentals of that
  day; and the map a daily table denotes (day to total).
\<close>

definition daily_spec :: "frame \<Rightarrow> daily_row list" where
  "daily_spec df =
     (case (min_date df, max_date df) of
        (Some lo, Some hi) \<Rightarrow>
          map (\<lambda>d. \<lparr>daily_dteday = d, total_rentals = day_total df d\<rparr>) [lo..hi]
      | _ \<Rightarrow> [])"

definition daily_lookup :: "daily_row list \<Rightarrow> day \<rightharpoonup> int" where
  "daily_lookup rows = map_of (map (\<lambda>r. (daily_dteday r, total_rentals r)) rows)"

subsection \<open>The bins hold the day totals\<close>

lemma key_sum_dates:
  "key_sum (map (\<lambda>r. (dteday r, cnt r)) df) d = day_total df d"
  by (induction df) (simp_all add: day_total_def)

lemma key_sum_dates_fun: "key_sum (map (\<lambda>r. (dteday r, cnt r)) df) = day_total df"
  by (rule ext) (rule key_sum_dates)

lemma day_total_absent: "d \<notin> dteday ` set df \<Longrightarrow> day_total df d = 0"
  by (induction df) (simp_all add: day_total_def)

lemma day_bins_get:
  "(case day_bins df d of None \<Rightarrow> 0 | Some s \<Rightarrow> s) = day_total df d"
  by (auto simp: day_bins_def group_acc_empty key_sum_dates image_image day_total_absent)

lemma create_daily_orders_df_spec: "create_daily_orders_df df = daily_spec df"
  by (simp add: create_daily_orders_df_def resample_sum_def daily_spec_def day_bins_get
      split: option.splits)

lemma day_total_mset:
  assumes "mset df = mset df'"
  shows "day_total df d = day_total df' d"
proof -
  have "mset (map (\<lambda>r. (dteday r, cnt r)) df) = mset (map (\<lambda>r. (dteday r, cnt r)) df')"
    using assms by simp
  then have "key_sum (map (\<lambda>r. (dteday r, cnt r)) df) d = key_sum (map (\<lambda>r. (dteday r, cnt r)) df') d"
    by (rule key_sum_mset)
  then show ?thesis by (simp only: key_sum_dates)
qed

lemma min_max_mset:
  "mset df = mset df' \<Longrightarrow> min_date df = min_date df' \<and> max_date df = max_date df'"
proof -
  assume "mset df = mset df'"
  then have "set df = set df'"
    by (rule mset_eq_setD)
  then have "set (map dteday df) = set (map dteday df')"
    by simp
  then show ?thesis
    by (simp add: min_date_def max_date_def series_min_set [of "map dteday df"]
        series_max_set [of "map dteday df"])
qed

lemma span_dates:
  "min_date df = Some lo \<Longrightarrow> max_date df = Some hi \<Longrightarrow> dteday ` set df \<subseteq> {lo..hi}"
  by (auto simp: min_date_Some max_date_Some)

lemma daily_spec_span:
  "min_date df = Some lo \<Longrightarrow> max_date df = Some hi \<Longrightarrow>
   daily_spec df = map (\<lambda>d. \<lparr>daily_dteday = d, total_rentals = day_total df d\<rparr>) [lo..hi]"
  by (simp add: daily_spec_def)

lemma day_total_span_sum:
  assumes "min_date df = Some lo" and "max_date df = Some hi"
  shows "sum_list (map (day_total df) [lo..hi]) = sum_list (map cnt df)"
proof -
  let ?kvs = "map (\<lambda>r. (dteday r, cnt r)) df"
  have "fst ` set ?kvs \<subseteq> set [lo..hi]"
    using span_dates [OF assms] by (simp add: image_image)
  then have "sum_list (map (key_sum ?kvs) [lo..hi]) = sum_list (map snd ?kvs)"
    by (simp add: key_sum_total)
  then show ?thesis
    by (simp add: key_sum_dates_fun comp_def)
qed

lemmas daily_unfold [frame_simps] = create_daily_orders_df_spec daily_spec_span

lemma total_orders_create_daily:
  "total_orders (create_daily_orders_df df) = sum_list (map cnt df)"
proof (cases "df = []")
  case True
  then show ?thesis
    by (simp add: create_daily_orders_df_spec daily_spec_def total_orders_def)
next
  case False
  then obtain lo hi where lo: "min_date df = Some lo" and hi: "max_date df = Some hi"
    by fastforce
  then show ?thesis
    by (simp add: frame_simps total_orders_def comp_def day_total_span_sum [OF lo hi])
qed

text \<open>
  C1. The daily table loses no rental and invents none: the sum of its
  \<open>total_rentals\<close> column (the "Total Orders" metric) is the sum of \<open>cnt\<close> over the
  frame it was built from.
\<close>

theorem daily_total_preserved:
  "total_orders (create_daily_orders_df df) = sum_list (map cnt df)"
  by (rule total_orders_create_daily)

text \<open>
  C7. Refinement: the daily table denotes the map that sends every day of the frame's
  span (from its first to its last date) to the rentals of that day, and is undefined
  elsewhere.
\<close>

theorem daily_lookup_refines:
  "daily_lookup (create_daily_orders_df df) d =
     (case (min_date df, max_date df) of
        (Some lo, Some hi) \<Rightarrow> if lo \<le> d \<and> d \<le> hi then Some (day_total df d) else None
      | _ \<Rightarrow> None)"
  by (simp add: create_daily_orders_df_spec daily_spec_def daily_lookup_def comp_def
      map_of_map_restrict restrict_map_def split: option.splits)

text \<open>
  C8. The daily table's dates are exactly the consecutive days from the frame's first
  date to its last, in ascending order, one row each.
\<close>

theorem daily_dates_contiguous:
  assumes "min_date df = Some lo" and "max_date df = Some hi"
  shows "map daily_dteday (create_daily_orders_df df) = [lo..hi]"
  using assms by (simp add: frame_simps comp_def)

theorem daily_dates_contiguous_witness:
  "map daily_dteday (create_daily_orders_df example_frame) = [18628, 18629, 18630]"
  using daily_dates_contiguous [of example_frame 18628 18630]
  by (simp add: example_frame_def min_date_def max_date_def series_min_def series_max_def upto.simps)

text \<open>
  C15. Days of the span on which no row was recorded still get a row, with total 0:
  resampling fills gaps, so the table has one row per calendar day of the span, not one
  per distinct date of the data.
\<close>

theorem daily_gap_rows:
  assumes "min_date df = Some lo" and "max_date df = Some hi"
    and "lo \<le> d" and "d \<le> hi" and "d \<notin> dteday ` set df"
  shows "\<lparr>daily_dteday = d, total_rentals = 0\<rparr> \<in> set (create_daily_orders_df df)"
proof -
  have "day_total df d = 0"
    using assms(5) by (rule day_total_absent)
  with assms show ?thesis
    by (auto simp: frame_simps intro!: image_eqI [where x = d])
qed

theorem daily_gap_rows_witness:
  "\<lparr>daily_dteday = 18629, total_rentals = 0\<rparr> \<in> set (create_daily_orders_df example_frame)"
  using daily_gap_rows [of example_frame 18628 18630 18629]
  by (simp add: example_frame_def min_date_def max_date_def series_min_def series_max_def)

text \<open>
  C18. The daily table depends only on the multiset of rows: the order of rows, and in
  particular the order the unstable \<open>sort_values\<close> leaves rows of equal date in, does
  not change it.
\<close>

theorem daily_perm_invariant:
  assumes "mset df = mset df'"
  shows "create_daily_orders_df df = create_daily_orders_df df'"
proof -
  have "min_date df = min_date df'" and "max_date df = max_date df'"
    using min_max_mset [OF assms] by simp_all
  moreover have "day_total df = day_total df'"
    using day_total_mset [OF assms] by (rule ext)
  ultimately have "daily_spec df = daily_spec df'"
    unfolding daily_spec_def by (simp only:)
  then show ?thesis
    by (simp add: create_daily_orders_df_spec)
qed

theorem daily_perm_invariant_witness:
  "create_daily_orders_df example_frame = create_daily_orders_df (rev example_frame)"
  using daily_perm_invariant [of example_frame "rev example_frame"] by simp

subsection \<open>The metric in int64\<close>

lemma sum_list_word_of_int:
  "sum_list (map (\<lambda>x. word_of_int (f x)) xs) = (word_of_int (sum_list (map f xs)) :: 64 word)"
proof (induction xs)
  case Nil
  then show ?case by simp
next
  case (Cons x xs)
  have "sum_list (map (\<lambda>x. word_of_int (f x)) (x # xs))
      = word_of_int (f x) + (word_of_int (sum_list (map f xs)) :: 64 word)"
    by (simp only: list.map sum_list.Cons Cons.IH)
  also have "\<dots> = word_of_int (f x + sum_list (map f xs))"
    by (rule wi_hom_add)
  finally show ?case by (simp only: list.map sum_list.Cons)
qed

lemma total_orders_int64_wrap:
  "total_orders_int64 daily = word_of_int (total_orders daily)"
  unfolding total_orders_int64_def total_orders_def by (rule sum_list_word_of_int)

text \<open>
  C17. Bounds: with counts in \<open>[0, 2^32)\<close> and fewer than \<open>2^31\<close> rows, the int64
  sum of the daily totals does not wrap: it is the exact number of rentals.
\<close>

theorem total_orders_int64_exact:
  assumes "\<forall>r\<in>set df. 0 \<le> cnt r \<and> cnt r < 2 ^ 32" and "length df < 2 ^ 31"
  shows "sint (total_orders_int64 (create_daily_orders_df df)) = sum_list (map cnt df)"
proof -
  let ?t = "sum_list (map cnt df)"
  have "0 \<le> ?t"
    by (rule sum_list_nonneg) (use assms(1) in auto)
  moreover have "?t \<le> int (length df) * 2 ^ 32"
    by (rule sum_list_le_length_mult) (use assms(1) in auto)
  moreover have "int (length df) * 2 ^ 32 \<le> (2 ^ 31 - 1) * (2 ^ 32 :: int)"
  proof (rule mult_right_mono)
    have "int (length df) < int (2 ^ 31)"
      using assms(2) by (simp only: of_nat_less_iff)
    then show "int (length df) \<le> 2 ^ 31 - 1" by simp
  qed simp
  moreover have "(2 ^ 31 - 1) * (2 ^ 32 :: int) < 2 ^ 63" and "(0 :: int) \<le> 2 ^ 63"
    by simp_all
  ultimately have "- (2 ^ 63) \<le> ?t" and "?t < 2 ^ 63"
    by linarith+
  then show ?thesis
    unfolding total_orders_int64_wrap total_orders_create_daily
    by (rule sint_int64_exact)
qed

theorem total_orders_int64_exact_witness:
  "sint (total_orders_int64 (create_daily_orders_df example_frame)) = 157"
  using total_orders_int64_exact [of example_frame]
  by (simp add: example_frame_def)

end
