(* ===== verification/DayType.thy ===== *)
theory DayType
  imports Frame
begin

text \<open>
  The Day-Type Aggregator: \<open>create_weekday_weekend_df\<close> (lines 31--41 of
  \<open>src/dashboard.py\<close>). Line 34 writes a \<open>day_type\<close> column into the frame it is
  given (a mutation of the caller's \<open>main_df\<close>, returned here as the first component),
  line 37 groups by that column and sums \<open>cnt\<close>. pandas' \<open>groupby\<close> emits one row
  per key present, keys in ascending order; the sums are filled in one pass
  (\<open>groupby_sum\<close>, on the keyed accumulation of the prelude), and \<open>groupby_spec\<close>
  is the reference it is proved equal to. The bar chart of lines 81--97 colours the
  table's rows positionally (\<open>weekday_bar_palette\<close>).
\<close>

definition weekday_type :: "int \<Rightarrow> day_type" where
  "weekday_type x = (if x \<ge> 5 then Weekend else Weekday)"

definition add_day_type_col :: "frame \<Rightarrow> frame" where
  "add_day_type_col df = map (\<lambda>r. r\<lparr>day_type := Some (weekday_type (weekday r))\<rparr>) df"

definition groupby_sum :: "('k::linorder \<times> int) list \<Rightarrow> ('k \<times> int) list" where
  "groupby_sum kvs =
     (let m = group_acc Map.empty kvs
      in map (\<lambda>k. (k, case m k of None \<Rightarrow> 0 | Some s \<Rightarrow> s)) (sort (remdups (map fst kvs))))"

record day_type_row =
  dt_day_type :: day_type
  dt_total_rentals :: int

definition create_weekday_weekend_df :: "frame \<Rightarrow> frame \<times> day_type_row list" where
  "create_weekday_weekend_df df =
     (let df' = add_day_type_col df;
          groups = groupby_sum (map (\<lambda>r. (the (day_type r), cnt r)) df')
      in (df', map (\<lambda>(t, s). \<lparr>dt_day_type = t, dt_total_rentals = s\<rparr>) groups))"

text \<open>Lines 82--89: \<open>colors = ["#66b3ff", "#ff9999"]\<close> given to \<open>sns.barplot\<close>.\<close>

definition weekday_colors :: "string list" where
  "weekday_colors = [''#66b3ff'', ''#ff9999'']"

definition weekday_bar_palette :: "day_type_row list \<Rightarrow> (day_type \<times> string) list" where
  "weekday_bar_palette rows = zip (map dt_day_type rows) weekday_colors"

text \<open>The frame the loader builds from the spec's example file.\<close>

subsection \<open>Reference definitions\<close>

text \<open>The spec's classification: weekend exactly for the indices 5 and 6.\<close>

definition classify_spec :: "int \<Rightarrow> day_type" where
  "classify_spec x = (if x \<in> {5, 6} then Weekend else Weekday)"

definition groupby_spec :: "('k::linorder \<times> int) list \<Rightarrow> ('k \<times> int) list" where
  "groupby_spec kvs = map (\<lambda>k. (k, key_sum kvs k)) (sort (remdups (map fst kvs)))"

subsection \<open>Lemmas\<close>

lemma add_day_type_col_proj [simp]:
  "map dteday (add_day_type_col df) = map dteday df"
  "map cnt (add_day_type_col df) = map cnt df"
  "map (\<lambda>r. (dteday r, cnt r)) (add_day_type_col df) = map (\<lambda>r. (dteday r, cnt r)) df"
  by (simp_all add: add_day_type_col_def comp_def)

lemma fst_create_weekday_weekend_df: "fst (create_weekday_weekend_df df) = add_day_type_col df"
  by (simp add: create_weekday_weekend_df_def Let_def)

lemma filter_eq_distinct:
  "distinct xs \<Longrightarrow> filter (\<lambda>y. y = x) xs = (if x \<in> set xs then [x] else [])"
  by (induction xs) auto

lemma groupby_spec_key:
  "sum_list (map snd (filter (\<lambda>kv. fst kv = k) (groupby_spec kvs))) = key_sum kvs k"
proof -
  let ?ks = "sort (remdups (map fst kvs))"
  have "filter (\<lambda>kv. fst kv = k) (groupby_spec kvs) = map (\<lambda>k. (k, key_sum kvs k)) (filter (\<lambda>y. y = k) ?ks)"
    by (simp add: groupby_spec_def filter_map comp_def)
  also have "\<dots> = (if k \<in> fst ` set kvs then [(k, key_sum kvs k)] else [])"
    by (simp add: filter_eq_distinct)
  finally show ?thesis by (simp add: key_sum_absent)
qed

lemma key_sum_rows:
  "key_sum (map (\<lambda>r. (f r, cnt r)) df) k = sum_list (map cnt (filter (\<lambda>r. f r = k) df))"
  by (simp add: key_sum_def filter_map comp_def)

lemma day_type_keys:
  "map (\<lambda>r. (the (day_type r), cnt r)) (add_day_type_col df)
     = map (\<lambda>r. (weekday_type (weekday r), cnt r)) df"
  by (simp add: add_day_type_col_def)

lemma groupby_spec_total: "sum_list (map snd (groupby_spec kvs)) = sum_list (map snd kvs)"
  by (simp add: groupby_spec_def comp_def key_sum_total)

lemma set_sort_remdups_keys [simp]: "set (sort (remdups (map fst kvs))) = fst ` set kvs"
  by simp

lemma groupby_sum_eq: "groupby_sum kvs = groupby_spec kvs"
  unfolding groupby_sum_def groupby_spec_def Let_def
  by (rule map_cong) (simp_all add: group_acc_empty)

text \<open>
  C9. The one-pass grouped sum equals the reference group-by: one entry per key
  present, keys ascending, each with the sum of the values under it.
\<close>

theorem groupby_sum_spec: "groupby_sum kvs = groupby_spec kvs"
  by (rule groupby_sum_eq)

lemma weekday_weekend_groups:
  "snd (create_weekday_weekend_df df) =
     map (\<lambda>(t, s). \<lparr>dt_day_type = t, dt_total_rentals = s\<rparr>)
       (groupby_spec (map (\<lambda>r. (weekday_type (weekday r), cnt r)) df))"
  by (simp add: create_weekday_weekend_df_def day_type_keys groupby_sum_eq)

lemmas weekday_weekend_unfold [frame_simps] = weekday_weekend_groups groupby_spec_def

text \<open>
  C2. Partition: the Weekday and Weekend totals together account for every rental of
  the frame, each exactly once.
\<close>

theorem weekday_weekend_partition:
  "sum_list (map dt_total_rentals (snd (create_weekday_weekend_df df))) = sum_list (map cnt df)"
proof -
  let ?kvs = "map (\<lambda>r. (weekday_type (weekday r), cnt r)) df"
  have "sum_list (map dt_total_rentals (snd (create_weekday_weekend_df df)))
      = sum_list (map snd (groupby_spec ?kvs))"
    by (simp add: weekday_weekend_groups comp_def case_prod_beta)
  also have "\<dots> = sum_list (map snd ?kvs)"
    by (rule groupby_spec_total)
  finally show ?thesis by (simp add: comp_def)
qed

text \<open>
  C6. On the weekday indices 0--6 the lambda of line 34 is the spec's classification:
  0--4 are Weekday, 5 and 6 are Weekend.
\<close>

theorem weekday_type_classifies:
  assumes "0 \<le> x" and "x \<le> 6"
  shows "weekday_type x = classify_spec x"
  using assms by (auto simp: weekday_type_def classify_spec_def)

theorem weekday_type_classifies_witness: "weekday_type 5 = classify_spec 5"
  using weekday_type_classifies [of 5] by simp

text \<open>
  C19. Outside 0--6 the code and the spec part: the code's test \<open>x >= 5\<close> puts every
  index from 7 up in Weekend, where the spec's rule (indices 5 and 6) says Weekday.
\<close>

theorem weekday_type_out_of_range:
  assumes "7 \<le> x"
  shows "weekday_type x = Weekend \<and> classify_spec x = Weekday"
  using assms by (simp add: weekday_type_def classify_spec_def)

theorem weekday_type_out_of_range_witness:
  "weekday_type 7 = Weekend \<and> classify_spec 7 = Weekday"
  using weekday_type_out_of_range [of 7] by simp

text \<open>
  C14. When every row of the frame is a weekday (indices below 5), the table has a
  single Weekday row and no Weekend row: the spec asks for a zero-valued row for the
  missing category, the code omits it.
\<close>

theorem weekday_weekend_missing_category:
  assumes "df \<noteq> []" and "\<forall>r\<in>set df. weekday r < 5"
  shows "snd (create_weekday_weekend_df df) =
           [\<lparr>dt_day_type = Weekday, dt_total_rentals = sum_list (map cnt df)\<rparr>]"
proof -
  let ?kvs = "map (\<lambda>r. (weekday_type (weekday r), cnt r)) df"
  have "\<forall>r\<in>set df. weekday_type (weekday r) = Weekday"
    using assms(2) by (auto simp: weekday_type_def)
  then have keys: "fst ` set ?kvs = {Weekday}"
    using assms(1) by (simp add: image_image image_set_const)
  then have "sort (remdups (map fst ?kvs)) = [Weekday]"
    by (intro sort_remdups_singleton) (simp only: set_map)
  moreover have "key_sum ?kvs Weekday = sum_list (map cnt df)"
    using key_sum_total [of "[Weekday]" ?kvs] keys by (simp add: comp_def)
  ultimately show ?thesis
    by (simp add: weekday_weekend_groups groupby_spec_def)
qed

theorem weekday_weekend_missing_category_witness:
  "snd (create_weekday_weekend_df [hd example_frame, last example_frame]) =
     [\<lparr>dt_day_type = Weekday, dt_total_rentals = 107\<rparr>]"
  using weekday_weekend_missing_category [of "[hd example_frame, last example_frame]"]
  by (simp add: example_frame_def)

text \<open>
  C20. The bar colours are handed out by position: when the frame has only weekend rows
  the single Weekend bar gets \<open>#66b3ff\<close>, the colour the code's comment assigns to
  Weekday.
\<close>

theorem weekday_palette_positional:
  assumes "df \<noteq> []" and "\<forall>r\<in>set df. 5 \<le> weekday r"
  shows "weekday_bar_palette (snd (create_weekday_weekend_df df)) = [(Weekend, ''#66b3ff'')]"
proof -
  let ?kvs = "map (\<lambda>r. (weekday_type (weekday r), cnt r)) df"
  have "\<forall>r\<in>set df. weekday_type (weekday r) = Weekend"
    using assms(2) by (auto simp: weekday_type_def)
  then have keys: "fst ` set ?kvs = {Weekend}"
    using assms(1) by (simp add: image_image image_set_const)
  then have "sort (remdups (map fst ?kvs)) = [Weekend]"
    by (intro sort_remdups_singleton) (simp only: set_map)
  then show ?thesis
    by (simp add: weekday_weekend_groups groupby_spec_def weekday_bar_palette_def weekday_colors_def)
qed

theorem weekday_palette_positional_witness:
  "weekday_bar_palette (snd (create_weekday_weekend_df [example_frame ! 1])) = [(Weekend, ''#66b3ff'')]"
  using weekday_palette_positional [of "[example_frame ! 1]"]
  by (simp add: example_frame_def)

text \<open>
  C28. Under the spec's convention for the \<open>weekday\<close> column (Monday = 0, the
  column agreeing with \<open>dteday\<close>), the Weekend row of the table is the total of the
  rentals on Saturdays and Sundays, and the Weekday row the total of the other days.
\<close>

theorem weekend_total_by_date:
  assumes "\<forall>r\<in>set df. weekday r = iso_weekday (dteday r)"
  shows "sum_list (map dt_total_rentals (filter (\<lambda>t. dt_day_type t = Weekend) (snd (create_weekday_weekend_df df))))
           = sum_list (map cnt (filter (\<lambda>r. iso_weekday (dteday r) \<in> {5, 6}) df)) \<and>
         sum_list (map dt_total_rentals (filter (\<lambda>t. dt_day_type t = Weekday) (snd (create_weekday_weekend_df df))))
           = sum_list (map cnt (filter (\<lambda>r. iso_weekday (dteday r) \<notin> {5, 6}) df))"
proof -
  let ?kvs = "map (\<lambda>r. (weekday_type (weekday r), cnt r)) df"
  have row: "sum_list (map dt_total_rentals (filter (\<lambda>t. dt_day_type t = k) (snd (create_weekday_weekend_df df))))
      = key_sum ?kvs k" for k
  proof -
    have "sum_list (map dt_total_rentals (filter (\<lambda>t. dt_day_type t = k) (snd (create_weekday_weekend_df df))))
        = sum_list (map snd (filter (\<lambda>kv. fst kv = k) (groupby_spec ?kvs)))"
      by (simp add: weekday_weekend_groups filter_map comp_def case_prod_beta)
    then show ?thesis by (simp only: groupby_spec_key)
  qed
  have cls: "weekday_type (weekday r) = Weekend \<longleftrightarrow> iso_weekday (dteday r) \<in> {5, 6}" if "r \<in> set df" for r
  proof -
    have "0 \<le> iso_weekday (dteday r)" "iso_weekday (dteday r) < 7" by (simp_all add: iso_weekday_def)
    then show ?thesis using assms that by (auto simp: weekday_type_def)
  qed
  have "filter (\<lambda>r. weekday_type (weekday r) = Weekend) df = filter (\<lambda>r. iso_weekday (dteday r) \<in> {5, 6}) df"
    using cls by (rule filter_cong [OF refl])
  moreover have "filter (\<lambda>r. weekday_type (weekday r) = Weekday) df = filter (\<lambda>r. iso_weekday (dteday r) \<notin> {5, 6}) df"
  proof (rule filter_cong [OF refl])
    fix r assume "r \<in> set df"
    then show "(weekday_type (weekday r) = Weekday) = (iso_weekday (dteday r) \<notin> {5, 6})"
      using cls [of r] by (cases "weekday_type (weekday r)") simp_all
  qed
  ultimately show ?thesis by (simp only: row key_sum_rows)
qed

theorem weekend_total_by_date_witness:
  "sum_list (map dt_total_rentals (filter (\<lambda>t. dt_day_type t = Weekend) (snd (create_weekday_weekend_df example_frame)))) = 50 \<and>
   sum_list (map dt_total_rentals (filter (\<lambda>t. dt_day_type t = Weekday) (snd (create_weekday_weekend_df example_frame)))) = 107"
proof -
  have "\<forall>r\<in>set example_frame. weekday r = iso_weekday (dteday r)"
    by (simp add: example_frame_def iso_weekday_def)
  from weekend_total_by_date [OF this] show ?thesis
    by (simp add: example_frame_def iso_weekday_def)
qed

end
