(* ===== verification/Season.thy ===== *)
theory Season
  imports Prelude
begin

text \<open>
  The Seasonal Summary (lines 100--137 of \<open>src/dashboard.py\<close>): a fixed table of four
  season codes with illustrative counts, not read from the dataset. Line 108 maps the
  codes to labels with \<open>Series.map\<close> (a code missing from \<open>season_mapping\<close> would
  become \<open>NaN\<close>, here \<open>None\<close>); line 111 sorts by count ascending; the bar chart
  colours the bars positionally with \<open>colors_\<close> (lines 114--123), and lines 126--127
  write each count, as \<open>str(value)\<close>, 50 units right of its bar. \<open>season_summary\<close>
  is the table for any input data; \<open>season_df\<close> is the script's.
\<close>

definition season_mapping :: "int \<rightharpoonup> string" where
  "season_mapping = [1 \<mapsto> ''Musim Semi'', 2 \<mapsto> ''Musim Panas'', 3 \<mapsto> ''Musim Gugur'',
                     4 \<mapsto> ''Musim Dingin'']"

definition season_data :: "(int \<times> int) list" where
  "season_data = [(1, 1200), (2, 2500), (3, 1800), (4, 900)]"

record season_row =
  season :: "string option"
  season_cnt :: int

definition map_season :: "(int \<times> int) list \<Rightarrow> season_row list" where
  "map_season data = map (\<lambda>(s, c). \<lparr>season = season_mapping s, season_cnt = c\<rparr>) data"

definition season_summary :: "(int \<times> int) list \<Rightarrow> season_row list" where
  "season_summary data = sort_key season_cnt (map_season data)"

definition season_df :: "season_row list" where
  "season_df = season_summary season_data"

definition season_colors :: "string list" where
  "season_colors = [''#A3C1AD'', ''#A3C1AD'', ''#A3C1AD'', ''#4E84C4'']"

definition season_bar_palette :: "season_row list \<Rightarrow> (string option \<times> string) list" where
  "season_bar_palette rows = zip (map season rows) season_colors"

subsection \<open>\<open>str\<close> of a count\<close>

text \<open>Python's \<open>str\<close> on an integer: its decimal digits, a minus sign if negative.\<close>

fun nat_digits :: "nat \<Rightarrow> string" where
  "nat_digits n =
     (if n < 10 then [char_of (48 + n)] else nat_digits (n div 10) @ [char_of (48 + n mod 10)])"

declare nat_digits.simps [simp del]

definition py_str_int :: "int \<Rightarrow> string" where
  "py_str_int i = (if i < 0 then CHR ''-'' # nat_digits (nat (- i)) else nat_digits (nat i))"

definition season_bar_labels :: "season_row list \<Rightarrow> (int \<times> nat \<times> string) list" where
  "season_bar_labels rows =
     map (\<lambda>(index, r). (season_cnt r + 50, index, py_str_int (season_cnt r))) (enumerate 0 rows)"

subsection \<open>Lemmas\<close>

lemma length_season_summary [simp]: "length (season_summary data) = length data"
  by (simp add: season_summary_def map_season_def)

lemma sorted_season_summary: "sorted (map season_cnt (season_summary data))"
  by (simp add: season_summary_def)

text \<open>
  C16. With four seasons the one highlighted bar (the fourth colour, \<open>#4E84C4\<close>) is the
  season with the largest count: the sort puts it last.
\<close>

theorem season_highlight_max:
  assumes "length data = 4"
  shows "season_bar_palette (season_summary data) ! 3 = (season (season_summary data ! 3), ''#4E84C4'')
         \<and> (\<forall>r\<in>set (season_summary data). season_cnt r \<le> season_cnt (season_summary data ! 3))"
proof -
  let ?rows = "season_summary data"
  have len: "length ?rows = 4" using assms by simp
  have "season_cnt (?rows ! i) \<le> season_cnt (?rows ! 3)" if "i < 4" for i
    using sorted_season_summary [of data, THEN sorted_nth_mono, of i 3] that len by simp
  then have "\<forall>r\<in>set ?rows. season_cnt r \<le> season_cnt (?rows ! 3)"
    using len by (auto simp: in_set_conv_nth)
  moreover have "season_bar_palette ?rows ! 3 = (season (?rows ! 3), ''#4E84C4'')"
    using len by (simp add: season_bar_palette_def season_colors_def)
  ultimately show ?thesis by simp
qed

theorem season_highlight_max_witness:
  "season_bar_palette season_df ! 3 = (Some ''Musim Panas'', ''#4E84C4'') \<and>
   season_cnt (season_df ! 0) \<le> season_cnt (season_df ! 3)"
proof -
  have "season_df ! 0 \<in> set season_df" and "season_df ! 3 = \<lparr>season = Some ''Musim Panas'', season_cnt = 2500\<rparr>"
    by (simp_all add: season_df_def season_summary_def map_season_def season_data_def season_mapping_def)
  with season_highlight_max [of season_data] show ?thesis
    by (simp add: season_df_def season_data_def)
qed

lemma nat_digits_value: "digits_value (nat_digits n) = n"
proof (induction n rule: nat_digits.induct)
  case (1 n)
  show ?case
  proof (cases "n < 10")
    case True
    then show ?thesis
      by (simp add: nat_digits.simps [of n] digits_value_def of_char_digit)
  next
    case False
    then have "digits_value (nat_digits (n div 10)) = n div 10" by (rule "1.IH")
    with False show ?thesis
      by (simp add: nat_digits.simps [of n] digits_value_snoc of_char_digit)
  qed
qed

lemma py_str_int_value: "0 \<le> i \<Longrightarrow> int (digits_value (py_str_int i)) = i"
  by (simp add: py_str_int_def nat_digits_value)

text \<open>
  C29. The value labels of the seasonal chart (lines 126--127): the i-th label is written
  at the i-th bar, 50 units right of its end, and its text, read back as a decimal
  number, is the count of that bar.
\<close>

theorem season_labels_faithful:
  assumes "\<forall>r\<in>set rows. 0 \<le> season_cnt r"
  shows "map (\<lambda>(x, i, s). int (digits_value s)) (season_bar_labels rows) = map season_cnt rows \<and>
         map (\<lambda>(x, i, s). (x, i)) (season_bar_labels rows) = zip (map (\<lambda>r. season_cnt r + 50) rows) [0..<length rows]"
proof -
  have e: "season_bar_labels rows =
      map (\<lambda>(i, r). (season_cnt r + 50, i, py_str_int (season_cnt r))) (zip [0..<length rows] rows)"
    by (simp add: season_bar_labels_def enumerate_eq_zip)
  have "map (\<lambda>(x, i, s). int (digits_value s)) (season_bar_labels rows) = map season_cnt rows"
  proof (rule nth_equalityI)
    fix j assume "j < length (map (\<lambda>(x, i, s). int (digits_value s)) (season_bar_labels rows))"
    then have j: "j < length rows" by (simp add: e)
    then have "0 \<le> season_cnt (rows ! j)" using assms by simp
    with j show "map (\<lambda>(x, i, s). int (digits_value s)) (season_bar_labels rows) ! j = map season_cnt rows ! j"
      by (simp add: e py_str_int_value)
  qed (simp add: e)
  moreover have "map (\<lambda>(x, i, s). (x, i)) (season_bar_labels rows) = zip (map (\<lambda>r. season_cnt r + 50) rows) [0..<length rows]"
    by (rule nth_equalityI) (simp_all add: e)
  ultimately show ?thesis by (rule conjI)
qed

theorem season_labels_faithful_witness:
  "map (\<lambda>(x, i, s). int (digits_value s)) (season_bar_labels season_df) = [900, 1200, 1800, 2500] \<and>
   map (\<lambda>(x, i, s). (x, i)) (season_bar_labels season_df) = [(950, 0), (1250, 1), (1850, 2), (2550, 3)]"
proof -
  have df: "season_df =
     [\<lparr>season = Some ''Musim Dingin'', season_cnt = 900\<rparr>, \<lparr>season = Some ''Musim Semi'', season_cnt = 1200\<rparr>,
      \<lparr>season = Some ''Musim Gugur'', season_cnt = 1800\<rparr>, \<lparr>season = Some ''Musim Panas'', season_cnt = 2500\<rparr>]"
    by (simp add: season_df_def season_summary_def map_season_def season_data_def season_mapping_def)
  show ?thesis
    using season_labels_faithful [of season_df] by (simp add: df upt_rec)
qed

end
