(* ===== verification/Spec2Isabelle.thy ===== *)
theory Spec2Isabelle
  imports Daily DayType Season
begin

text \<open>
  \<^bold>\<open>A verification model of the bicycle-rental dashboard (\<open>src/dashboard.py\<close>).\<close>

  \<^emph>\<open>The program.\<close> One Streamlit script, re-run on every change of the date
  picker: it reads \<open>All_Data.csv\<close>, parses the \<open>dteday\<close> column and sorts by it
  (lines 44--49), offers a date range bounded by the first and last dates (lines 52--65),
  keeps the rows in the chosen range (line 68), builds a daily table by resampling
  (\<open>create_daily_orders_df\<close>, lines 14--29) and a Weekday/Weekend table by grouping
  (\<open>create_weekday_weekend_df\<close>, lines 31--41), shows the total as a metric (lines
  75--76) and draws two bar charts, the second from a fixed seasonal table that does
  not depend on the data (lines 100--137).

  \<^emph>\<open>Theories.\<close>
  \<^item> \<open>Prelude\<close>: the day type (a \<open>dteday\<close> timestamp is a day number), the
    \<open>error\<close> values (\<open>ParseError\<close>, \<open>EmptyDataset\<close>, \<open>ValueError\<close>), pandas'
    \<open>Series.min/max\<close> (\<open>series_min\<close>, \<open>series_max\<close>, \<open>None\<close> for \<open>NaT\<close>), and
    the one-pass keyed accumulation \<open>group_acc\<close> that computes pandas' grouped sums,
    with its reference \<open>key_sum\<close> and the lemmas relating them.
  \<^item> \<open>Calendar\<close>: what \<open>pd.to_datetime\<close> does to the dataset's
    \<open>YYYY-MM-DD\<close> strings (lines 16, 47), modelled from pandas' documented behaviour:
    the proleptic Gregorian calendar (\<open>is_leap\<close>, \<open>days_before_year\<close>,
    \<open>days_before_month\<close>, \<open>days_of_civil\<close>), the inverse \<open>civil_of_days\<close> by the
    searches \<open>find_year\<close> (a \<open>partial_function\<close> in the option monad) and
    \<open>find_month\<close> (a \<open>function\<close> with a measure), the parser \<open>parse_iso\<close> with
    the \<open>datetime64[ns]\<close> bounds \<open>in_timestamp_range\<close>, the printer \<open>format_iso\<close>,
    and \<open>iso_weekday\<close> (Python's Monday-0 weekday).
  \<^item> \<open>Frame\<close>: the rows (\<open>rental\<close>, \<open>raw_rental\<close>), the \<open>day_type\<close> values
    with their literals and their order, the loader \<open>load_all_df\<close> (over any parser
    \<open>to_datetime\<close>: the library's formats are not modelled), the picker bounds
    \<open>min_date\<close>/\<open>max_date\<close>, the unpacking \<open>unpack_date_range\<close> of the picker's
    tuple, and the filter \<open>filter_range\<close>; the loader instantiated with
    \<open>parse_iso\<close>.
  \<^item> \<open>Daily\<close>: \<open>day_bins\<close>, \<open>resample_sum\<close>, \<open>create_daily_orders_df\<close>, the
    metric \<open>total_orders\<close> and its int64 form \<open>total_orders_int64\<close>; the reference
    \<open>daily_spec\<close>/\<open>day_total\<close> and the denotation \<open>daily_lookup\<close>.
  \<^item> \<open>DayType\<close>: the lambda of line 34 (\<open>weekday_type\<close>), the column write
    \<open>add_day_type_col\<close>, the grouped sum \<open>groupby_sum\<close>,
    \<open>create_weekday_weekend_df\<close> (returning the mutated frame and the table) and the
    positional bar colours; the references \<open>classify_spec\<close> and \<open>groupby_spec\<close>.
  \<^item> \<open>Season\<close>: \<open>season_mapping\<close>, \<open>season_data\<close>, \<open>season_summary\<close> and
    \<open>season_df\<close>, the bar colours and the value labels with Python's \<open>str\<close>
    (\<open>py_str_int\<close>, \<open>nat_digits\<close>).
  \<^item> this theory: one run of the script, \<open>dashboard\<close>, from the file's rows and the
    picker's tuple to the rendered values (\<open>view\<close>) or an error; \<open>aggregate\<close> is
    lines 71--72 in their order; the rerun loop: the widget's click behaviour
    \<open>picker_step\<close> (Streamlit's documented range mode, library behaviour), the states
    \<open>picker_reachable\<close> from the default value \<open>[min_date, max_date]\<close> and within
    the bounds the script passes (lines 60--65), and the widget's invariant
    \<open>picker_inv\<close>.

  \<^emph>\<open>What is proved.\<close> The daily table keeps every rental (C1), covers the span day by
  day (C8, C15), denotes the per-day totals (C7) and depends only on the multiset of
  rows (C18); the day-type table partitions the rentals (C2); the one-pass grouped sum
  equals the reference (C9); the filter is the identity on the full span and exact on
  one day (C4, C5); the loader sorts without losing rows (C10) and fails exactly on an
  unparsable date (C11); a run of the dashboard on a well-formed file and a two-date
  selection returns, and its metric is the sum over the selected rows (C3), the first
  page shows the whole file's total (C30), an empty selection gives empty tables and a
  zero metric (C21), a selection of another length raises (C12); the two aggregations
  may run in either order despite the column write (C13); the int64 metric does not
  wrap under stated bounds (C17); the seasonal chart's highlight and value labels (C16,
  C29). The divergences from the spec: zero rows for days without data (C15), a missing
  category row (C14), the classification outside 0--6 (C19), positional colours (C20).
  Under the spec's Monday-0 convention for the \<open>weekday\<close> column the Weekend row is
  the Saturday and Sunday total (C28). Over the rerun loop: every reachable picker
  state holds at most two ordered dates in bounds (C22, by rule induction), every rerun
  renders or raises \<open>ValueError\<close> and nothing else (C23), the raising state is one
  click away from the default (C24), and from every reachable state any range in bounds
  can be selected and renders (C27, liveness). With the ISO parser the loaded dates
  print back to the file's strings with their multiplicities (C25, round trip), and a
  well-formed date outside the range of pandas timestamps fails the load (C26).

  \<^emph>\<open>Bounds and choices.\<close> No loop of the script can run forever: every loop is a
  structural recursion over a list or over \<open>[lo..hi]\<close>, so no fuel is needed. The
  calendar conversion used to print dates (\<open>civil_of_days\<close>) is a reference of this
  model, not pandas' code; its year search is written as a \<open>partial_function\<close> in the
  option monad and proved to return from every start (\<open>find_year_Some\<close>), the month
  search is bounded by 12. A date is accepted when its nanosecond count fits int64,
  which is the day range -106751..106751 (1677-09-22 to 2262-04-11). Counts are
  unbounded integers in the tables and in the metric of \<open>view\<close>: numpy sums in int64
  with wrap-around, which \<open>total_orders_int64\<close> models, and C17 gives the bound
  (counts below \<open>2^32\<close>, fewer than \<open>2^31\<close> rows) under which the two agree; the
  equalities about the metric hold in int64 too, claims about its sign would not.
  pandas' \<open>sort_values\<close> is not stable; \<open>sort_key\<close> fixes one order and C18 shows
  the daily table does not depend on it.

  \<^emph>\<open>Not modelled.\<close> CSV reading (\<open>pd.read_csv\<close>, I/O; a missing \<open>dteday\<close>
  cell, which pandas turns into \<open>NaT\<close> without failing, is outside the spec's
  well-formed input and not representable here) and the date formats of
  \<open>pd.to_datetime\<close> other than \<open>YYYY-MM-DD\<close> (the loader's lemmas hold for any
  parser); the Streamlit widgets beyond the value of the date picker; the drawing by
  matplotlib/seaborn beyond the colour and label lists. An empty dataset makes
  \<open>min()\<close>/\<open>max()\<close> return \<open>NaT\<close>; what the date picker then does is not fixed by
  the source, and the model stops with \<open>EmptyDataset\<close>.

  \<^emph>\<open>Extent.\<close> Every line of \<open>src/dashboard.py\<close> that computes a value is
  modelled. The lines left out only display or style: the imports and \<open>sns.set\<close>
  (lines 1--8), the page header (10), the sidebar image (56--57), the \<open>st.metric\<close>
  display (76), the subheaders, figure creation, titles, axis labels and
  \<open>st.pyplot\<close> of both charts (80--81, 91--97, 101, 117, 130--137).
\<close>

record view =
  view_date_bounds :: "day \<times> day"
  view_daily :: "daily_row list"
  view_total_orders :: int
  view_day_types :: "day_type_row list"
  view_seasons :: "season_row list"

text \<open>
  Lines 71--72: the daily table first, then the day-type table, which also writes the
  \<open>day_type\<close> column into \<open>main_df\<close>.
\<close>

definition aggregate :: "frame \<Rightarrow> frame \<times> daily_row list \<times> day_type_row list" where
  "aggregate main_df =
     (let daily_orders_df = create_daily_orders_df main_df;
          (main_df', weekday_weekend_df) = create_weekday_weekend_df main_df
      in (main_df', daily_orders_df, weekday_weekend_df))"

text \<open>The two calls in the other order, the daily table built from the written frame.\<close>

definition aggregate_swapped :: "frame \<Rightarrow> frame \<times> daily_row list \<times> day_type_row list" where
  "aggregate_swapped main_df =
     (let (main_df', weekday_weekend_df) = create_weekday_weekend_df main_df;
          daily_orders_df = create_daily_orders_df main_df'
      in (main_df', daily_orders_df, weekday_weekend_df))"

text \<open>One run of the script (lines 44--111), from the file's rows and the picker's tuple.\<close>

definition dashboard :: "(string \<Rightarrow> day option) \<Rightarrow> raw_rental list \<Rightarrow> day list \<Rightarrow> error + view" where
  "dashboard to_datetime raws selection =
     (case load_all_df to_datetime raws of
        Inl err \<Rightarrow> Inl err
      | Inr all_df \<Rightarrow>
          (case (min_date all_df, max_date all_df) of
             (Some lo, Some hi) \<Rightarrow>
               (case unpack_date_range selection of
                  Inl err \<Rightarrow> Inl err
                | Inr (start_date, end_date) \<Rightarrow>
                    (let main_df = filter_range all_df start_date end_date;
                         (main_df', daily_orders_df, weekday_weekend_df) = aggregate main_df
                     in Inr \<lparr>view_date_bounds = (lo, hi), view_daily = daily_orders_df,
                             view_total_orders = total_orders daily_orders_df,
                             view_day_types = weekday_weekend_df, view_seasons = season_df\<rparr>))
           | _ \<Rightarrow> Inl EmptyDataset))"

subsection \<open>The rerun loop: the date picker's state\<close>

text \<open>
  Streamlit re-runs the whole script after every interaction with the picker of lines
  60--65. In range mode the widget returns the dates picked so far: initially the
  default value \<open>[min_date, max_date]\<close>; a click when zero or two dates are held
  starts a new range with one date; a click when one date is held completes the range,
  ordered; clearing the field leaves no date. Clicks are limited to the bounds
  \<open>lo\<close>..\<open>hi\<close>. Each state is one input of \<open>dashboard\<close>.
\<close>

inductive picker_step :: "day \<Rightarrow> day \<Rightarrow> day list \<Rightarrow> day list \<Rightarrow> bool"
  for lo hi :: day where
  pick_first: "length sel \<noteq> 1 \<Longrightarrow> lo \<le> d \<Longrightarrow> d \<le> hi \<Longrightarrow> picker_step lo hi sel [d]"
| pick_second: "lo \<le> d \<Longrightarrow> d \<le> hi \<Longrightarrow> picker_step lo hi [a] [min a d, max a d]"
| clear: "picker_step lo hi sel []"

inductive picker_reachable :: "day \<Rightarrow> day \<Rightarrow> day list \<Rightarrow> bool"
  for lo hi :: day where
  init: "picker_reachable lo hi [lo, hi]"
| step: "picker_reachable lo hi sel \<Longrightarrow> picker_step lo hi sel sel' \<Longrightarrow> picker_reachable lo hi sel'"

text \<open>What the widget guarantees about its value: at most two dates, ordered, in bounds.\<close>

definition picker_inv :: "day \<Rightarrow> day \<Rightarrow> day list \<Rightarrow> bool" where
  "picker_inv lo hi sel \<longleftrightarrow> length sel \<le> 2 \<and> sorted sel \<and> list_all (\<lambda>d. lo \<le> d \<and> d \<le> hi) sel"

subsection \<open>Lemmas\<close>

lemma daily_ignores_day_type_col:
  "create_daily_orders_df (add_day_type_col df) = create_daily_orders_df df"
proof -
  have "min_date (add_day_type_col df) = min_date df" and "max_date (add_day_type_col df) = max_date df"
    by (simp_all add: min_date_def max_date_def)
  moreover have "day_total (add_day_type_col df) d = day_total df d" for d
    using key_sum_dates [of "add_day_type_col df" d] key_sum_dates [of df d] by simp
  ultimately have "daily_spec (add_day_type_col df) = daily_spec df"
    unfolding daily_spec_def by presburger
  then show ?thesis by (simp add: create_daily_orders_df_spec)
qed

lemma dashboard_run:
  assumes "load_all_df p raws = Inr all_df"
    and "min_date all_df = Some lo" and "max_date all_df = Some hi"
  shows "dashboard p raws [s, e] =
    Inr \<lparr>view_date_bounds = (lo, hi),
         view_daily = create_daily_orders_df (filter_range all_df s e),
         view_total_orders = total_orders (create_daily_orders_df (filter_range all_df s e)),
         view_day_types = snd (create_weekday_weekend_df (filter_range all_df s e)),
         view_seasons = season_df\<rparr>"
  using assms by (simp add: dashboard_def unpack_date_range_def aggregate_def Let_def case_prod_beta)

lemma dashboard_not_pair:
  assumes "load_all_df p raws = Inr all_df"
    and "min_date all_df = Some lo" and "max_date all_df = Some hi" and "length sel \<noteq> 2"
  shows "dashboard p raws sel = Inl ValueError"
proof -
  have "unpack_date_range sel = Inl ValueError"
    using assms(4) by (simp add: unpack_date_range_Inl)
  with assms(1-3) show ?thesis
    by (simp add: dashboard_def)
qed

lemma load_well_formed:
  assumes "\<forall>r\<in>set raws. p (raw_dteday r) \<noteq> None" and "raws \<noteq> []"
  obtains lo hi where "load_all_df p raws = Inr (sort_key dteday (map (parsed_row p) raws))"
    and "min_date (sort_key dteday (map (parsed_row p) raws)) = Some lo"
    and "max_date (sort_key dteday (map (parsed_row p) raws)) = Some hi"
proof -
  have "sort_key dteday (map (parsed_row p) raws) \<noteq> []"
    using assms(2) by (metis length_0_conv length_map length_sort)
  then show ?thesis
    using that assms(1) by (fastforce simp: load_all_df_Inr)
qed

text \<open>
  C3. On a file whose dates all parse and a two-date selection, a run of the dashboard
  returns (no error), and its "Total Orders" metric is the sum of \<open>cnt\<close> over the
  file's rows whose date lies in the selected range.
\<close>

theorem dashboard_total_orders:
  assumes "\<forall>r\<in>set raws. p (raw_dteday r) \<noteq> None" and "raws \<noteq> []"
  shows "\<exists>v. dashboard p raws [s, e] = Inr v \<and>
           view_total_orders v = sum_list (map cnt (filter_range (map (parsed_row p) raws) s e))"
proof -
  let ?rows = "map (parsed_row p) raws"
  obtain lo hi where load: "load_all_df p raws = Inr (sort_key dteday ?rows)"
    and lo: "min_date (sort_key dteday ?rows) = Some lo"
    and hi: "max_date (sort_key dteday ?rows) = Some hi"
    using assms by (rule load_well_formed)
  have "mset (filter_range (sort_key dteday ?rows) s e) = mset (filter_range ?rows s e)"
    by (rule mset_filter_range) simp
  then have "sum_list (map cnt (filter_range (sort_key dteday ?rows) s e))
      = sum_list (map cnt (filter_range ?rows s e))"
    by (rule sum_list_map_mset)
  then show ?thesis
    by (simp add: dashboard_run [OF load lo hi] total_orders_create_daily)
qed

theorem dashboard_total_orders_witness:
  "\<exists>v. dashboard example_parser example_raws [18628, 18628] = Inr v \<and> view_total_orders v = 100"
  using dashboard_total_orders [of example_raws example_parser 18628 18628]
  by (simp add: example_raws_def example_parser_def parsed_row_def filter_range_def)

text \<open>
  C12. While the picker holds anything but two dates (one date, mid-selection), the
  unpacking on line 60 raises: the run fails with \<open>ValueError\<close> on any well-formed
  file.
\<close>

theorem dashboard_unpack_error:
  assumes "\<forall>r\<in>set raws. p (raw_dteday r) \<noteq> None" and "raws \<noteq> []" and "length sel \<noteq> 2"
  shows "dashboard p raws sel = Inl ValueError"
proof -
  let ?rows = "map (parsed_row p) raws"
  obtain lo hi where load: "load_all_df p raws = Inr (sort_key dteday ?rows)"
    and lo: "min_date (sort_key dteday ?rows) = Some lo"
    and hi: "max_date (sort_key dteday ?rows) = Some hi"
    using assms(1,2) by (rule load_well_formed)
  from load lo hi assms(3) show ?thesis
    by (rule dashboard_not_pair)
qed

theorem dashboard_unpack_error_witness:
  "dashboard example_parser example_raws [18628] = Inl ValueError"
  using dashboard_unpack_error [of example_raws example_parser "[18628]"]
  by (simp add: example_raws_def example_parser_def)

text \<open>
  C13. The order of lines 71--72 does not matter: building the day-type table first,
  with its write of the \<open>day_type\<close> column into \<open>main_df\<close>, and the daily table from
  the written frame gives the same frame and tables.
\<close>

theorem aggregate_order_independent: "aggregate main_df = aggregate_swapped main_df"
proof -
  obtain df' wk where c: "create_weekday_weekend_df main_df = (df', wk)"
    by fastforce
  then have "df' = add_day_type_col main_df"
    using fst_create_weekday_weekend_df [of main_df] by simp
  with c show ?thesis
    by (simp add: aggregate_def aggregate_swapped_def daily_ignores_day_type_col)
qed

text \<open>
  C21. A selection that ends before the first date of the file is not an error: the run
  returns empty tables and a metric of 0.
\<close>

theorem dashboard_empty_range:
  assumes "\<forall>r\<in>set raws. p (raw_dteday r) \<noteq> None" and "raws \<noteq> []"
    and "\<forall>r\<in>set raws. e < the (p (raw_dteday r))"
  shows "\<exists>v. dashboard p raws [s, e] = Inr v \<and>
           view_daily v = [] \<and> view_total_orders v = 0 \<and> view_day_types v = []"
proof -
  let ?rows = "map (parsed_row p) raws"
  obtain lo hi where load: "load_all_df p raws = Inr (sort_key dteday ?rows)"
    and lo: "min_date (sort_key dteday ?rows) = Some lo"
    and hi: "max_date (sort_key dteday ?rows) = Some hi"
    using assms(1,2) by (rule load_well_formed)
  have "filter_range (sort_key dteday ?rows) s e = []"
    using assms(3) by (auto simp: filter_range_def filter_empty_conv parsed_row_def)
  then show ?thesis
    by (simp add: dashboard_run [OF load lo hi] create_daily_orders_df_spec daily_spec_def
        total_orders_def create_weekday_weekend_df_def add_day_type_col_def groupby_sum_def)
qed

theorem dashboard_empty_range_witness:
  "\<exists>v. dashboard example_parser example_raws [18000, 18001] = Inr v \<and>
     view_daily v = [] \<and> view_total_orders v = 0 \<and> view_day_types v = []"
  using dashboard_empty_range [of example_raws example_parser 18001 18000]
  by (simp add: example_raws_def example_parser_def)

subsection \<open>Reruns\<close>

lemma picker_step_inv: "picker_step lo hi sel sel' \<Longrightarrow> picker_inv lo hi sel \<Longrightarrow> picker_inv lo hi sel'"
  by (induction rule: picker_step.induct) (auto simp: picker_inv_def min_def max_def)

lemma picker_reachable_picker_inv:
  "picker_reachable lo hi sel \<Longrightarrow> lo \<le> hi \<Longrightarrow> picker_inv lo hi sel"
proof (induction rule: picker_reachable.induct)
  case init
  then show ?case by (simp add: picker_inv_def)
next
  case (step sel sel')
  then show ?case by (blast intro: picker_step_inv)
qed

lemma picker_one_click: "lo \<le> d \<Longrightarrow> d \<le> hi \<Longrightarrow> picker_reachable lo hi [d]"
  by (rule picker_reachable.step [OF picker_reachable.init]) (rule picker_step.pick_first, simp_all)

lemma file_bounds:
  assumes "\<forall>r\<in>set raws. p (raw_dteday r) \<noteq> None" and "raws \<noteq> []"
    and "min_date (map (parsed_row p) raws) = Some lo" and "max_date (map (parsed_row p) raws) = Some hi"
  shows "load_all_df p raws = Inr (sort_key dteday (map (parsed_row p) raws))"
    and "min_date (sort_key dteday (map (parsed_row p) raws)) = Some lo"
    and "max_date (sort_key dteday (map (parsed_row p) raws)) = Some hi"
proof -
  show "load_all_df p raws = Inr (sort_key dteday (map (parsed_row p) raws))"
    using assms(1) by (simp add: load_all_df_Inr)
  have "mset (sort_key dteday (map (parsed_row p) raws)) = mset (map (parsed_row p) raws)"
    by simp
  then show "min_date (sort_key dteday (map (parsed_row p) raws)) = Some lo"
    and "max_date (sort_key dteday (map (parsed_row p) raws)) = Some hi"
    using min_max_mset assms(3,4) by metis+
qed

lemma picker_steps_reachable:
  "(picker_step lo hi)\<^sup>*\<^sup>* sel sel' \<Longrightarrow> picker_reachable lo hi sel \<Longrightarrow> picker_reachable lo hi sel'"
  by (induction rule: rtranclp_induct) (auto intro: picker_reachable.step)

lemma picker_range_clicks:
  assumes "lo \<le> s" "s \<le> e" "e \<le> hi" "length sel \<noteq> 1"
  shows "(picker_step lo hi)\<^sup>*\<^sup>* sel [s, e]"
proof -
  have "picker_step lo hi sel [s]" using assms by (intro picker_step.pick_first) simp_all
  moreover have "picker_step lo hi [s] [min s e, max s e]" using assms by (intro picker_step.pick_second) simp_all
  ultimately show ?thesis using assms(2) by (simp add: min_def max_def)
qed

lemma picker_select:
  assumes "lo \<le> s" "s \<le> e" "e \<le> hi" "picker_inv lo hi sel"
  shows "(picker_step lo hi)\<^sup>*\<^sup>* sel [s, e]"
proof (cases "length sel = 1")
  case False then show ?thesis using assms by (intro picker_range_clicks) simp_all
next
  case True
  then obtain a where a: "sel = [a]" by (auto simp: length_Suc_conv)
  then have "lo \<le> a" "a \<le> hi" using assms(4) by (simp_all add: picker_inv_def)
  then have "picker_step lo hi sel [min a a, max a a]" unfolding a by (intro picker_step.pick_second)
  then have "(picker_step lo hi)\<^sup>*\<^sup>* sel [a, a]" by simp
  also have "(picker_step lo hi)\<^sup>*\<^sup>* [a, a] [s, e]" using assms by (intro picker_range_clicks) simp_all
  finally show ?thesis .
qed

text \<open>
  C22. Invariant of the rerun loop: in every state the picker can reach from its
  default value, it holds at most two dates, in order, within the file's bounds.
\<close>

theorem picker_reachable_inv:
  assumes "picker_reachable lo hi sel" and "lo \<le> hi"
  shows "length sel \<le> 2 \<and> sorted sel \<and> (\<forall>d\<in>set sel. lo \<le> d \<and> d \<le> hi)"
  using picker_reachable_picker_inv [OF assms] by (simp add: picker_inv_def list_all_iff)

theorem picker_reachable_inv_witness:
  "length [18628 :: day] \<le> 2 \<and> sorted [18628 :: day] \<and> (18628 :: day) \<le> 18629"
  using picker_reachable_inv [OF picker_one_click [of 18628 18628 18629]] by simp

text \<open>
  C23. Every rerun on a reachable picker state either renders, exactly when the picker
  holds two dates, with the file's bounds, or fails with \<open>ValueError\<close>, exactly when it
  holds fewer: no other error occurs on a well-formed file.
\<close>

theorem rerun_outcome:
  assumes "\<forall>r\<in>set raws. p (raw_dteday r) \<noteq> None" and "raws \<noteq> []"
    and "min_date (map (parsed_row p) raws) = Some lo" and "max_date (map (parsed_row p) raws) = Some hi"
    and "picker_reachable lo hi sel"
  shows "(case dashboard p raws sel of
            Inr v \<Rightarrow> length sel = 2 \<and> view_date_bounds v = (lo, hi)
          | Inl err \<Rightarrow> err = ValueError \<and> length sel < 2)"
proof -
  note f = file_bounds [OF assms(1-4)]
  have "lo \<le> hi" using assms(3,4) by (simp add: min_date_def max_date_def series_min_le_max)
  with assms(5) have "length sel \<le> 2"
    by (simp add: picker_reachable_picker_inv [THEN picker_inv_def [THEN iffD1]])
  then consider "length sel = 2" | "length sel < 2" by linarith
  then show ?thesis
  proof cases
    case 1
    then obtain s e where "sel = [s, e]"
      by (metis (no_types, lifting) One_nat_def Suc_1 length_0_conv length_Suc_conv)
    then show ?thesis by (simp add: dashboard_run [OF f])
  next
    case 2
    then show ?thesis by (simp add: dashboard_not_pair [OF f])
  qed
qed

theorem rerun_outcome_witness:
  "(case dashboard example_parser example_raws [18629] of
      Inr v \<Rightarrow> length [18629 :: day] = 2 \<and> view_date_bounds v = (18628, 18629)
    | Inl err \<Rightarrow> err = ValueError \<and> length [18629 :: day] < 2)"
  using rerun_outcome [of example_raws example_parser 18628 18629 "[18629]"]
    picker_one_click [of 18628 18629 18629]
  by (simp add: example_raws_def example_parser_def parsed_row_def min_date_def max_date_def
      series_min_def series_max_def)

text \<open>
  C24. The failing state is reached in ordinary use: one click on the default range
  leaves the picker holding one date, and that rerun raises \<open>ValueError\<close>.
\<close>

theorem picker_error_reachable:
  assumes "\<forall>r\<in>set raws. p (raw_dteday r) \<noteq> None" and "raws \<noteq> []"
    and "min_date (map (parsed_row p) raws) = Some lo" and "max_date (map (parsed_row p) raws) = Some hi"
    and "lo \<le> d" and "d \<le> hi"
  shows "picker_reachable lo hi [d] \<and> dashboard p raws [d] = Inl ValueError"
  using picker_one_click [OF assms(5,6)] dashboard_not_pair [OF file_bounds [OF assms(1-4)]] by simp

theorem picker_error_reachable_witness:
  "picker_reachable 18628 18629 [18628] \<and> dashboard example_parser example_raws [18628] = Inl ValueError"
  using picker_error_reachable [of example_raws example_parser 18628 18629 18628]
  by (simp add: example_raws_def example_parser_def parsed_row_def min_date_def max_date_def
      series_min_def series_max_def)

text \<open>
  C27. Liveness of the rerun loop: from every state the picker can reach, the user can
  select any range within the file's bounds by clicks, and the rerun on that state
  renders the page (no error).
\<close>

theorem picker_liveness:
  assumes "\<forall>r\<in>set raws. p (raw_dteday r) \<noteq> None" and "raws \<noteq> []"
    and "min_date (map (parsed_row p) raws) = Some lo" and "max_date (map (parsed_row p) raws) = Some hi"
    and "picker_reachable lo hi sel" and "lo \<le> s" and "s \<le> e" and "e \<le> hi"
  shows "(picker_step lo hi)\<^sup>*\<^sup>* sel [s, e] \<and> picker_reachable lo hi [s, e] \<and>
         (\<exists>v. dashboard p raws [s, e] = Inr v)"
proof -
  note f = file_bounds [OF assms(1-4)]
  have "picker_inv lo hi sel" using assms(5-8) by (intro picker_reachable_picker_inv) simp_all
  then have steps: "(picker_step lo hi)\<^sup>*\<^sup>* sel [s, e]" using assms(6-8) by (intro picker_select)
  then show ?thesis
    using picker_steps_reachable [OF steps assms(5)] by (simp add: dashboard_run [OF f])
qed

theorem picker_liveness_witness:
  "(picker_step 18628 18629)\<^sup>*\<^sup>* [18628] [18629, 18629] \<and> picker_reachable 18628 18629 [18629, 18629] \<and>
   (\<exists>v. dashboard example_parser example_raws [18629, 18629] = Inr v)"
  using picker_liveness [of example_raws example_parser 18628 18629 "[18628]" 18629 18629]
    picker_one_click [of 18628 18628 18629]
  by (simp add: example_raws_def example_parser_def parsed_row_def min_date_def max_date_def
      series_min_def series_max_def)

text \<open>
  C30. The page as first shown: with the picker's default value, the date filter keeps
  the whole file, the metric is the total of the file's \<open>cnt\<close> column, and the daily
  table is that of the whole loaded frame.
\<close>

theorem default_selection_total:
  assumes "\<forall>r\<in>set raws. p (raw_dteday r) \<noteq> None" and "raws \<noteq> []"
    and "min_date (map (parsed_row p) raws) = Some lo" and "max_date (map (parsed_row p) raws) = Some hi"
  shows "\<exists>v. dashboard p raws [lo, hi] = Inr v \<and> view_total_orders v = sum_list (map raw_cnt raws) \<and>
           view_daily v = create_daily_orders_df (sort_key dteday (map (parsed_row p) raws))"
proof -
  note f = file_bounds [OF assms(1-4)]
  have full: "filter_range (sort_key dteday (map (parsed_row p) raws)) lo hi = sort_key dteday (map (parsed_row p) raws)"
    using f(2,3) by (rule filter_range_bounds)
  have "sum_list (map cnt (sort_key dteday (map (parsed_row p) raws))) = sum_list (map cnt (map (parsed_row p) raws))"
    by (rule sum_list_map_mset) simp
  then show ?thesis
    by (simp add: dashboard_run [OF f] full total_orders_create_daily comp_def parsed_row_def)
qed

theorem default_selection_total_witness:
  "\<exists>v. dashboard example_parser example_raws [18628, 18629] = Inr v \<and> view_total_orders v = 150 \<and>
     view_daily v = create_daily_orders_df (sort_key dteday (map (parsed_row example_parser) example_raws))"
  using default_selection_total [of example_raws example_parser 18628 18629]
  by (simp add: example_raws_def example_parser_def parsed_row_def min_date_def max_date_def
      series_min_def series_max_def)

end
